theory Spec2Isabelle
  imports Complex_Main "HOL-Library.AList"
begin

section \<open>The AI jury: votes, request states and the tally\<close>

text \<open>
  The jury module (\<^verbatim>\<open>ai_jury_module.h\<close>, \<^verbatim>\<open>ai_jury_module.cpp\<close>) keeps one
  \<^verbatim>\<open>RequestState\<close> per request in the vector \<^verbatim>\<open>activeRequests\<close>. A vote arrives as a
  JSON text and is parsed by \<^verbatim>\<open>Vote::fromJson\<close>; the model starts from the parsed vote.
  The C++ \<^verbatim>\<open>int\<close> fields are modelled as \<open>int\<close> (no run of a round comes near $2^{31}$ votes),
  the \<^verbatim>\<open>double\<close> fields as \<open>real\<close>: the claims below depend on the counters and on which
  constant is stored, never on floating-point rounding. Users are the indices of the
  host's user list (the code holds pointers into that list, which are never null).
\<close>

record Vote =
  requestId :: int
  isValid :: bool
  confidence :: real
  reason :: string
  juryId :: string
  v_context :: string

text \<open>
  \<^verbatim>\<open>RequestState\<close>: the array \<^verbatim>\<open>tally[2]\<close> is \<^verbatim>\<open>[invalid_count, valid_count]\<close>, and
  \<^verbatim>\<open>confidenceSum[2]\<close> is indexed the same way; both are pairs here, the first
  component being index 0.
\<close>

record RequestState =
  rs_user :: nat
  rs_requestId :: int
  messageType :: string
  messageData :: string
  rs_context :: string
  resolved :: bool
  received :: int
  tally :: "int \<times> int"
  confidenceSum :: "real \<times> real"

text \<open>What \<^verbatim>\<open>sendConsensusResult\<close> hands to the user-response callback.\<close>

record Consensus =
  cs_user :: nat
  cs_requestId :: int
  decision :: bool
  avgConfidence :: real
  validVotes :: int
  invalidVotes :: int
  totalVotes :: int
  cs_messageType :: string

text \<open>
  \<^verbatim>\<open>findRequest\<close> walks \<^verbatim>\<open>activeRequests\<close> from the front and returns a pointer to the
  first entry with the given id, or \<^verbatim>\<open>nullptr\<close>; the pointer is the entry's index here.
\<close>

fun findRequest :: "RequestState list \<Rightarrow> int \<Rightarrow> nat option" where
  "findRequest [] rid = None"
| "findRequest (r # rs) rid =
     (if rs_requestId r = rid then Some 0 else map_option Suc (findRequest rs rid))"

definition sendConsensusResult ::
  "RequestState \<Rightarrow> bool \<Rightarrow> real \<Rightarrow> int \<Rightarrow> int \<Rightarrow> int \<Rightarrow> Consensus" where
  "sendConsensusResult st majorityValid avgConf nvalid ninvalid ntotal =
     \<lparr> cs_user = rs_user st, cs_requestId = rs_requestId st, decision = majorityValid,
       avgConfidence = avgConf, validVotes = nvalid, invalidVotes = ninvalid,
       totalVotes = ntotal, cs_messageType = messageType st \<rparr>"

text \<open>
  \<^verbatim>\<open>AIJuryModule::processVote\<close>. The result is the new \<^verbatim>\<open>activeRequests\<close> and, when
  \<^verbatim>\<open>sendConsensusResult\<close> ran, the consensus it dispatched.
\<close>

definition count_vote :: "RequestState \<Rightarrow> Vote \<Rightarrow> RequestState" where
  "count_vote st vote =
     st \<lparr> received := received st + 1,
          tally := (if isValid vote then (fst (tally st), snd (tally st) + 1)
                    else (fst (tally st) + 1, snd (tally st))),
          confidenceSum :=
            (if isValid vote
             then (fst (confidenceSum st), snd (confidenceSum st) + confidence vote)
             else (fst (confidenceSum st) + confidence vote, snd (confidenceSum st))) \<rparr>"

definition processVote ::
  "RequestState list \<Rightarrow> Vote \<Rightarrow> int \<Rightarrow> RequestState list \<times> Consensus option" where
  "processVote activeRequests vote peerCount =
     (case findRequest activeRequests (requestId vote) of
        None \<Rightarrow> (activeRequests, None)
      | Some i \<Rightarrow>
          (let st = count_vote (activeRequests ! i) vote in
           if received st \<ge> peerCount then
             (let validV = snd (tally st);
                  invalidV = fst (tally st);
                  majorityValid = (validV > invalidV);
                  avgConf = (fst (confidenceSum st) + snd (confidenceSum st)) / real_of_int (received st)
              in (activeRequests[i := st \<lparr> resolved := True \<rparr>],
                  Some (sendConsensusResult st majorityValid avgConf validV invalidV (received st))))
           else (activeRequests[i := st], None)))"

text \<open>\<^verbatim>\<open>AIJuryModule::isConsensusReached\<close>: an unknown request counts as not reached.\<close>

fun isConsensusReached :: "RequestState list \<Rightarrow> int \<Rightarrow> bool" where
  "isConsensusReached [] rid = False"
| "isConsensusReached (r # rs) rid =
     (if rs_requestId r = rid then resolved r else isConsensusReached rs rid)"

text \<open>A fresh request state, as \<^verbatim>\<open>processRequest\<close> builds it from the struct's defaults.\<close>

definition new_request :: "nat \<Rightarrow> int \<Rightarrow> string \<Rightarrow> string \<Rightarrow> string \<Rightarrow> RequestState" where
  "new_request user rid mtype mdata ctx =
     \<lparr> rs_user = user, rs_requestId = rid, messageType = mtype, messageData = mdata,
       rs_context = ctx, resolved = False, received = 0, tally = (0, 0),
       confidenceSum = (0, 0) \<rparr>"

section \<open>Strings as the standard library handles them\<close>

text \<open>
  The operations of \<^verbatim>\<open>std::string\<close> that the code uses. \<^verbatim>\<open>s.substr(pos, n)\<close> throws when
  \<open>pos\<close> lies beyond the end; every call in the modelled code has \<open>pos\<close> within the
  text, where it is \<open>take n (drop pos s)\<close>. \<^verbatim>\<open>s.find(pat, pos)\<close> returns the first index
  at or after \<open>pos\<close> where \<open>pat\<close> occurs, or \<^verbatim>\<open>npos\<close>, which is \<open>None\<close> here.
  \<^verbatim>\<open>find_first_not_of\<close> and \<^verbatim>\<open>find_last_not_of\<close> return the first and the last index of a
  character outside the given set. \<^verbatim>\<open>::tolower\<close> is the one of the C locale, which maps
  the letters A to Z and leaves every other byte. \<^verbatim>\<open>std::to_string\<close> is only applied to
  numbers that are not negative.
\<close>

definition substr :: "string \<Rightarrow> nat \<Rightarrow> nat \<Rightarrow> string" where
  "substr s pos n = take n (drop pos s)"

definition starts_with :: "string \<Rightarrow> string \<Rightarrow> bool" where
  "starts_with s pat = (take (length pat) s = pat)"

fun find_first :: "string \<Rightarrow> string \<Rightarrow> nat option" where
  "find_first pat [] = (if pat = [] then Some 0 else None)"
| "find_first pat (c # cs) =
     (if starts_with (c # cs) pat then Some 0 else map_option Suc (find_first pat cs))"

definition str_find :: "string \<Rightarrow> string \<Rightarrow> nat \<Rightarrow> nat option" where
  "str_find s pat pos =
     (if length s < pos then None else map_option (\<lambda>i. pos + i) (find_first pat (drop pos s)))"

definition str_contains :: "string \<Rightarrow> string \<Rightarrow> bool" where
  "str_contains s pat = (str_find s pat 0 \<noteq> None)"

definition tolower :: "char \<Rightarrow> char" where
  "tolower c =
     (case map_of (zip ''ABCDEFGHIJKLMNOPQRSTUVWXYZ'' ''abcdefghijklmnopqrstuvwxyz'') c of
        Some l \<Rightarrow> l | None \<Rightarrow> c)"



fun to_string :: "nat \<Rightarrow> string" where
  "to_string n =
     (if n < 10 then [''0123456789'' ! n]
      else to_string (n div 10) @ [''0123456789'' ! (n mod 10)])"






section \<open>The local decision engine\<close>

text \<open>
  \<^verbatim>\<open>AIModelDecisionEngine::makeDecision\<close> and \<^verbatim>\<open>AIJuryModule::processRequest\<close>
  (\<^verbatim>\<open>ai_jury_module.cpp\<close>). The validator daemon is an input: \<open>jury_daemon\<close> is what one
  call of \<^verbatim>\<open>makeDecision\<close> gets from it, namely the result of the TCP probe
  \<^verbatim>\<open>pingAIDaemon\<close>, the \<^verbatim>\<open>status\<close> and \<^verbatim>\<open>model_loaded\<close> values of its ping reply (\<open>None\<close>
  when parsing the reply or reading the values throws), and for a statement the text of
  its reply and the parse of that text: \<open>Inl\<close> with the exception's message when
  parsing throws, otherwise the fields the code reads, each one absent, present, or of
  a type that makes \<^verbatim>\<open>get\<close> throw (with the exception's message). An exception inside
  the \<^verbatim>\<open>try\<close> block ends in the \<^verbatim>\<open>catch\<close> that overwrites validity, confidence and
  reason, before \<^verbatim>\<open>metadata\<close> is assigned. The broadcast callback is set by the contract
  before any request, so the vote is always broadcast; \<^verbatim>\<open>processRequest\<close> returns it
  next to the extended \<^verbatim>\<open>activeRequests\<close>.
\<close>

record Decision =
  d_isValid :: bool
  d_confidence :: real
  d_reason :: string
  metadata :: string

datatype 'a jfield = Absent | Mistyped string | Present 'a

record validate_response =
  j_error :: "string jfield"
  j_valid :: "bool jfield"
  j_confidence :: "real jfield"
  j_reason :: "string jfield"

record jury_daemon =
  pingAIDaemon :: bool
  ping_status :: "(string \<times> bool) option"
  validate_raw :: "string \<Rightarrow> string"
  validate_parsed :: "string \<Rightarrow> string + validate_response"

definition fallback :: "string \<Rightarrow> Decision" where
  "fallback r = \<lparr> d_isValid = True, d_confidence = 0.1, d_reason = r, metadata = [] \<rparr>"

definition first_mistyped :: "validate_response \<Rightarrow> string option" where
  "first_mistyped r =
     (case j_valid r of Mistyped w \<Rightarrow> Some w
      | _ \<Rightarrow> (case j_confidence r of Mistyped w \<Rightarrow> Some w
              | _ \<Rightarrow> (case j_reason r of Mistyped w \<Rightarrow> Some w | _ \<Rightarrow> None)))"

definition makeDecision :: "jury_daemon \<Rightarrow> string \<Rightarrow> string \<Rightarrow> string \<Rightarrow> Decision" where
  "makeDecision dm mtype mdata ctx =
     (if \<not> pingAIDaemon dm then fallback ''AI daemon not running''
      else case ping_status dm of
        None \<Rightarrow> fallback ''Failed to parse daemon status''
      | Some (status, model_loaded) \<Rightarrow>
          if status \<noteq> ''ready'' \<or> \<not> model_loaded
          then fallback (''AI model not ready ('' @ status @ '')'')
          else (case validate_parsed dm mdata of
              Inl what \<Rightarrow> fallback (''Failed to parse AI response: '' @ what)
            | Inr r \<Rightarrow>
               (case j_error r of
                  Present e \<Rightarrow> fallback (''AI error: '' @ e)
                | Mistyped what \<Rightarrow> fallback (''Failed to parse AI response: '' @ what)
                | Absent \<Rightarrow>
                   (case first_mistyped r of
                      Some what \<Rightarrow> fallback (''Failed to parse AI response: '' @ what)
                    | None \<Rightarrow>
                        \<lparr> d_isValid = (case j_valid r of Present b \<Rightarrow> b | _ \<Rightarrow> False),
                          d_confidence = (case j_confidence r of Present x \<Rightarrow> x | _ \<Rightarrow> 0),
                          d_reason = (case j_reason r of Present t \<Rightarrow> t
                                      | _ \<Rightarrow> ''AI model not available''),
                          metadata = validate_raw dm mdata \<rparr>))))"

definition processRequest ::
  "jury_daemon \<Rightarrow> string \<Rightarrow> RequestState list \<Rightarrow> nat \<Rightarrow> string \<Rightarrow> string \<Rightarrow> int \<Rightarrow> int \<Rightarrow> string
     \<Rightarrow> RequestState list \<times> Vote" where
  "processRequest dm jid reqs user mtype mdata rid peerCount ctx =
     (let d = makeDecision dm mtype mdata ctx;
          vote = \<lparr> requestId = rid, isValid = d_isValid d, confidence = d_confidence d,
                   reason = d_reason d, juryId = jid, v_context = ctx \<rparr>
      in (reqs @ [new_request user rid mtype mdata ctx], vote))"

section \<open>Game ids\<close>

text \<open>
  \<^verbatim>\<open>GameStateManager::listGames\<close> and \<^verbatim>\<open>GameStateManager::generateGameId\<close>. The argument
  \<open>entries\<close> holds the names of the regular files of the data directory in the order
  the directory iterator yields them. \<^verbatim>\<open>std::hash<std::string>\<close> is a parameter.
\<close>

definition listGames :: "string list \<Rightarrow> string list" where
  "listGames entries =
     map (\<lambda>f. substr (substr f 11 (length f - 11)) 0 (length f - 11 - 4))
       (filter (\<lambda>f. substr f 0 11 = ''game_world_'' \<and> length f > 15
                     \<and> substr f (length f - 4) 4 = ''.txt'') entries)"

definition generateGameId :: "(string \<Rightarrow> nat) \<Rightarrow> string list \<Rightarrow> string \<Rightarrow> string \<Rightarrow> string" where
  "generateGameId hasher entries userPrompt userIdHex =
     ''game_'' @ to_string (length (listGames entries) + 1) @ ''_''
       @ to_string (hasher (userPrompt @ userIdHex) mod 100000)"

section \<open>The game store\<close>

text \<open>
  The data directory \<^verbatim>\<open>game_data\<close> is an association list from file names to contents, in
  directory order. World and state files hold text; an NFT file holds the JSON object
  that \<^verbatim>\<open>extractPlayerInventory\<close> writes, kept here as a record (\<open>nft_tokens\<close> is empty
  when the key is absent). Opening a file for writing is taken to succeed, and texts
  are taken to be valid UTF-8, so that writing them into a JSON value succeeds as well.

  \<open>contract\<close> collects what the contract process holds and emits during a round: the
  data directory, the jury's \<^verbatim>\<open>activeRequests\<close>, the vector \<^verbatim>\<open>g_gameActionHandlers\<close>, the
  messages written to users with \<^verbatim>\<open>hp_write_user_msg\<close>, the votes broadcast to the
  peers, and the game ids handed to the external signer. \<open>host\<close> is the environment of
  one call of \<^verbatim>\<open>process_game_message\<close>: whether the global objects exist, what the
  inference daemon answers to the status probes and to the two generation requests,
  the round's \<^verbatim>\<open>readonly\<close> flag, the external signer's verdict, the validator daemon, the
  local jury id, the hash function and the clock. Replies are kept structured; the
  jury's JSON text and its parse in \<^verbatim>\<open>juryUserResponse\<close> cancel out.
\<close>

record NFTRecord =
  nft_game_id :: string
  completion_time :: nat
  winning_action :: string
  status :: string
  final_location :: string
  final_health :: string
  final_score :: string
  player_inventory :: string
  nft_tokens :: "string list"

datatype disk_file = Text string | NftJson NFTRecord

record GameActionState =
  gas_user :: nat
  gameId :: string
  action :: string
  playerAction :: string
  oldGameState :: string
  newGameState :: string
  gameWorld :: string
  continue_conversation :: bool
  action_idx :: int

record Enrichment =
  e_game_id :: string
  e_player_action :: string
  game_state :: string
  action_result :: string

datatype reply =
    ErrorReply string
  | GameCreated string
  | GamesList "string list"
  | GameStateReply string string
  | ConsensusReply Consensus "Enrichment option"
  | NftMintResult string bool bool

record contract =
  game_data :: "(string \<times> disk_file) list"
  activeRequests :: "RequestState list"
  g_gameActionHandlers :: "GameActionState list"
  user_out :: "(nat \<times> reply) list"
  npl_out :: "Vote list"
  mint_calls :: "string list"

record host =
  systems_initialized :: bool
  isDaemonRunning :: bool
  isModelReady :: bool
  ctx_available :: bool
  readonly :: bool
  nft_client_initialized :: bool
  createGame :: "string \<Rightarrow> string"
  processPlayerAction :: "string \<Rightarrow> string \<Rightarrow> string \<Rightarrow> string \<Rightarrow> bool \<Rightarrow> string"
  mintNFTsForGame :: "string \<Rightarrow> NFTRecord \<Rightarrow> bool"
  jury_engine :: jury_daemon
  local_juryId :: string
  hasher :: "string \<Rightarrow> nat"
  now :: nat

definition world_path :: "string \<Rightarrow> string" where
  "world_path gid = ''game_world_'' @ gid @ ''.txt''"

definition state_path :: "string \<Rightarrow> string" where
  "state_path gid = ''game_state_'' @ gid @ ''.txt''"

definition nft_path :: "string \<Rightarrow> string" where
  "nft_path gid = ''nft_'' @ gid @ ''.json''"

definition read_text :: "(string \<times> disk_file) list \<Rightarrow> string \<Rightarrow> string" where
  "read_text dir path = (case map_of dir path of Some (Text t) \<Rightarrow> t | _ \<Rightarrow> [])"

definition loadGameState :: "contract \<Rightarrow> string \<Rightarrow> string" where
  "loadGameState c gid = read_text (game_data c) (state_path gid)"

definition loadGameWorld :: "contract \<Rightarrow> string \<Rightarrow> string" where
  "loadGameWorld c gid = read_text (game_data c) (world_path gid)"

definition saveGameState :: "contract \<Rightarrow> string \<Rightarrow> string \<Rightarrow> contract" where
  "saveGameState c gid s = c \<lparr> game_data := AList.update (state_path gid) (Text s) (game_data c) \<rparr>"

definition saveGameWorld :: "contract \<Rightarrow> string \<Rightarrow> string \<Rightarrow> contract" where
  "saveGameWorld c gid w = c \<lparr> game_data := AList.update (world_path gid) (Text w) (game_data c) \<rparr>"

definition hp_write_user_msg :: "contract \<Rightarrow> nat \<Rightarrow> reply \<Rightarrow> contract" where
  "hp_write_user_msg c user r = c \<lparr> user_out := user_out c @ [(user, r)] \<rparr>"

section \<open>Partitioning a created game\<close>

text \<open>
  \<^verbatim>\<open>GameStateManager::separateGameContent\<close>: \<open>getlines\<close> is the sequence of lines that
  \<^verbatim>\<open>std::getline\<close> reads, \<open>separate_line\<close> the body of the loop on the four variables
  \<^verbatim>\<open>worldContent\<close>, \<^verbatim>\<open>stateContent\<close>, \<^verbatim>\<open>inWorldSection\<close>, \<^verbatim>\<open>inStateSection\<close>.
\<close>

function getlines :: "string \<Rightarrow> string list" where
  "getlines s =
     (if s = [] then []
      else takeWhile (\<lambda>c. c \<noteq> CHR 0x0A) s
             # (case dropWhile (\<lambda>c. c \<noteq> CHR 0x0A) s of [] \<Rightarrow> [] | nl # rest \<Rightarrow> getlines rest))"
  by pat_completeness auto
termination
proof (relation "measure length")
  show "wf (measure length)" by simp
next
  fix s :: string and nl :: char and rest :: string
  assume "s \<noteq> []" and d: "dropWhile (\<lambda>c. c \<noteq> CHR 0x0A) s = nl # rest"
  have "length (dropWhile (\<lambda>c. c \<noteq> CHR 0x0A) s) \<le> length s"
    by (rule length_dropWhile_le)
  with d show "(rest, s) \<in> measure length" by simp
qed

definition any_contains :: "string \<Rightarrow> string list \<Rightarrow> bool" where
  "any_contains s pats = list_ex (str_contains s) pats"

definition separate_line ::
  "string \<times> string \<times> bool \<times> bool \<Rightarrow> string \<Rightarrow> string \<times> string \<times> bool \<times> bool" where
  "separate_line acc line =
     (case acc of (worldContent, stateContent, inWorldSection, inStateSection) \<Rightarrow>
        (let lowerLine = map tolower line in
         if any_contains lowerLine [''game title:'', ''world description:'', ''world lore:'',
              ''objectives:'', ''win conditions:'', ''game rules:'']
         then (worldContent @ line @ [CHR 0x0A], stateContent, True, False)
         else if any_contains lowerLine [''current situation:'', ''location:'', ''starting status:'']
         then (worldContent, stateContent @ line @ [CHR 0x0A], False, True)
         else if inWorldSection
         then (worldContent @ line @ [CHR 0x0A], stateContent, inWorldSection, inStateSection)
         else if inStateSection
         then (worldContent, stateContent @ line @ [CHR 0x0A], inWorldSection, inStateSection)
         else if line \<noteq> []
         then (if any_contains lowerLine [''you are'', ''you have'', ''you find yourself'',
                    ''currently'', ''health'', ''inventory'', ''score'']
               then (worldContent, stateContent @ line @ [CHR 0x0A], inWorldSection, inStateSection)
               else (worldContent @ line @ [CHR 0x0A], stateContent, inWorldSection, inStateSection))
         else acc))"

definition separateGameContent :: "string \<Rightarrow> string \<times> string" where
  "separateGameContent fullGameContent =
     (case foldl separate_line ([], [], False, False) (getlines fullGameContent) of
        (worldContent, stateContent, _, _) \<Rightarrow>
          ((if worldContent = [] then fullGameContent else worldContent),
           (if stateContent = []
            then ''Current Situation: You are just beginning your adventure.'' @ [CHR 0x0A]
                 @ ''Location: Starting location'' @ [CHR 0x0A]
                 @ ''Starting Status: You are ready to begin.'' @ [CHR 0x0A]
            else stateContent)))"

section \<open>The NFT trigger\<close>

text \<open>
  \<^verbatim>\<open>ValuableItemExtractor::extractField\<close> with its two loops (\<open>skip_blanks\<close> over spaces
  and tabs, \<open>pop_trailing\<close> over trailing spaces, tabs and carriage returns),
  \<^verbatim>\<open>ValuableItemExtractor::extractPlayerInventory\<close>, and
  \<^verbatim>\<open>NFTMintingClient::isAlreadyMinted\<close>.
\<close>

function skip_blanks :: "string \<Rightarrow> nat \<Rightarrow> nat" where
  "skip_blanks s pos =
     (if pos < length s \<and> (s ! pos = CHR '' '' \<or> s ! pos = CHR 0x09)
      then skip_blanks s (pos + 1) else pos)"
  by pat_completeness auto
termination
  by (relation "measure (\<lambda>(s, pos). length s - pos)") auto

function pop_trailing :: "string \<Rightarrow> string" where
  "pop_trailing v =
     (if v \<noteq> [] \<and> (last v = CHR '' '' \<or> last v = CHR 0x09 \<or> last v = CHR 0x0D)
      then pop_trailing (butlast v) else v)"
  by pat_completeness auto
termination
  by (relation "measure length") auto

definition extractField :: "string \<Rightarrow> string \<Rightarrow> string" where
  "extractField gameState fieldName =
     (case str_find gameState fieldName 0 of
        None \<Rightarrow> []
      | Some p \<Rightarrow>
          (let pos = skip_blanks gameState (p + length fieldName);
               endPos = (case str_find gameState [CHR 0x0A] pos of
                           None \<Rightarrow> length gameState | Some e \<Rightarrow> e)
           in pop_trailing (substr gameState pos (endPos - pos))))"

definition extractPlayerInventory :: "host \<Rightarrow> contract \<Rightarrow> string \<Rightarrow> string \<Rightarrow> string \<Rightarrow> contract" where
  "extractPlayerInventory h c gid gameState pAction =
     c \<lparr> game_data := AList.update (nft_path gid)
          (NftJson \<lparr> nft_game_id = gid, completion_time = now h, winning_action = pAction,
                     status = ''won'',
                     final_location = extractField gameState ''Player_Location:'',
                     final_health = extractField gameState ''Player_Health:'',
                     final_score = extractField gameState ''Player_Score:'',
                     player_inventory = extractField gameState ''Player_Inventory:'',
                     nft_tokens = [] \<rparr>)
          (game_data c) \<rparr>"

definition isAlreadyMinted :: "NFTRecord \<Rightarrow> bool" where
  "isAlreadyMinted r = (status r = ''minted'' \<or> nft_tokens r \<noteq> [])"

section \<open>The orchestrator\<close>

text \<open>
  \<^verbatim>\<open>juryUserResponse\<close>, the callback that the jury invokes with a consensus. The handler
  is the first entry of \<^verbatim>\<open>g_gameActionHandlers\<close> whose \<^verbatim>\<open>action_idx\<close> is the consensus's
  request id. \<^verbatim>\<open>process_jury_vote\<close> passes a vote to \<^verbatim>\<open>processVote\<close>, which calls the
  callback when it dispatches. \<^verbatim>\<open>waitForJuryConsensus\<close> polls the peer channel until the
  request is resolved; the argument \<open>npl\<close> lists the votes that arrive while it polls,
  and when they run out before the request is resolved the loop never ends, which is
  the value \<open>None\<close>.
\<close>

definition juryUserResponse :: "host \<Rightarrow> contract \<Rightarrow> nat \<Rightarrow> Consensus \<Rightarrow> contract" where
  "juryUserResponse h c user cons =
     (if cs_messageType cons = ''validate_game_action'' then
        (case find (\<lambda>g. action_idx g = cs_requestId cons) (g_gameActionHandlers c) of
           Some gs \<Rightarrow>
             if action gs = ''player_action'' then
               (if decision cons \<and> newGameState gs \<noteq> [] then
                  hp_write_user_msg
                    (if str_contains (newGameState gs) ''Game_Status: won''
                     then extractPlayerInventory h c (gameId gs) (newGameState gs) (playerAction gs)
                     else c)
                    user
                    (ConsensusReply cons (Some \<lparr> e_game_id = gameId gs,
                       e_player_action = playerAction gs, game_state = newGameState gs,
                       action_result = ''success'' \<rparr>))
                else
                  hp_write_user_msg
                    (if gameId gs \<noteq> [] \<and> oldGameState gs \<noteq> []
                     then saveGameState c (gameId gs) (oldGameState gs) else c)
                    user
                    (ConsensusReply cons (Some \<lparr> e_game_id = gameId gs,
                       e_player_action = playerAction gs, game_state = oldGameState gs,
                       action_result = ''failed'' \<rparr>)))
             else hp_write_user_msg c user (ConsensusReply cons None)
         | None \<Rightarrow> hp_write_user_msg c user (ConsensusReply cons None))
      else hp_write_user_msg c user (ConsensusReply cons None))"

definition process_jury_vote :: "host \<Rightarrow> contract \<Rightarrow> Vote \<Rightarrow> int \<Rightarrow> contract" where
  "process_jury_vote h c vote peer_count =
     (case processVote (activeRequests c) vote peer_count of
        (reqs, None) \<Rightarrow> c \<lparr> activeRequests := reqs \<rparr>
      | (reqs, Some cons) \<Rightarrow> juryUserResponse h (c \<lparr> activeRequests := reqs \<rparr>) (cs_user cons) cons)"

fun waitForJuryConsensus :: "host \<Rightarrow> contract \<Rightarrow> int \<Rightarrow> int \<Rightarrow> Vote list \<Rightarrow> contract option" where
  "waitForJuryConsensus h c request_idx peer_count [] =
     (if isConsensusReached (activeRequests c) request_idx then Some c else None)"
| "waitForJuryConsensus h c request_idx peer_count (v # npl) =
     (if isConsensusReached (activeRequests c) request_idx then Some c
      else waitForJuryConsensus h (process_jury_vote h c v peer_count) request_idx peer_count npl)"

text \<open>
  \<^verbatim>\<open>process_game_message\<close>. The \<^verbatim>\<open>player_action\<close> branch is \<open>player_action_branch\<close>, with
  the parsing of \<^verbatim>\<open>game_id:action:continue\<close> in \<open>parse_action_data\<close> and the error-keyword
  check in \<open>is_error_response\<close>; the code after the branches, which registers the jury
  request and the handler, is \<open>jury_submission\<close>; the \<^verbatim>\<open>mint_nft\<close> branch is
  \<open>mint_nft_branch\<close>, where a file that does not parse as JSON is a \<open>Text\<close>.
\<close>

definition is_error_response :: "string \<Rightarrow> bool" where
  "is_error_response actionResult =
     (let lowerResponse = map tolower actionResult in
      str_contains lowerResponse ''error:'' \<or> str_contains lowerResponse ''failed''
      \<or> str_contains lowerResponse ''invalid'' \<or> str_contains lowerResponse ''cannot''
      \<or> actionResult = [])"

text \<open>The locals of the \<^verbatim>\<open>player_action\<close> branch after it ran.\<close>

record action_locals =
  l_state :: GameActionState
  playerActionText :: string
  l_oldGameState :: string
  l_newGameState :: string
  l_store :: contract

definition blank_state :: "nat \<Rightarrow> string \<Rightarrow> GameActionState" where
  "blank_state user act =
     \<lparr> gas_user = user, gameId = [], action = act, playerAction = [], oldGameState = [],
       newGameState = [], gameWorld = [], continue_conversation = False, action_idx = 0 \<rparr>"

definition parse_action_data :: "string \<Rightarrow> (string \<times> string \<times> bool) option" where
  "parse_action_data data =
     (case str_find data '':'' 0 of
        None \<Rightarrow> None
      | Some colonPos \<Rightarrow>
          (case str_find data '':'' (colonPos + 1) of
             Some secondColonPos \<Rightarrow>
               Some (substr data 0 colonPos,
                     substr data (colonPos + 1) (secondColonPos - colonPos - 1),
                     (let continueStr = drop (secondColonPos + 1) data
                      in continueStr = ''true'' \<or> continueStr = ''1''))
           | None \<Rightarrow> Some (substr data 0 colonPos, drop (colonPos + 1) data, False)))"

definition player_action_branch :: "host \<Rightarrow> contract \<Rightarrow> nat \<Rightarrow> string \<Rightarrow> action_locals" where
  "player_action_branch h c user data =
     (case parse_action_data data of
        None \<Rightarrow>
          \<lparr> l_state = (blank_state user ''player_action'') \<lparr> playerAction := data \<rparr>,
            playerActionText = [], l_oldGameState = [], l_newGameState = [], l_store = c \<rparr>
      | Some (gid, actionText, cont) \<Rightarrow>
          (let old = loadGameState c gid;
               world = loadGameWorld c gid
           in if old = [] \<or> world = [] then
                \<lparr> l_state = (blank_state user ''player_action'')
                     \<lparr> gameId := gid, playerAction := actionText, continue_conversation := cont,
                       oldGameState := old, newGameState := old, gameWorld := world \<rparr>,
                  playerActionText = actionText, l_oldGameState = old, l_newGameState = [],
                  l_store = c \<rparr>
              else
                (let actionResult = processPlayerAction h gid actionText old world cont;
                     st = (blank_state user ''player_action'')
                            \<lparr> gameId := gid, playerAction := actionText, oldGameState := old,
                              gameWorld := world \<rparr>
                 in if actionResult \<noteq> [] \<and> \<not> is_error_response actionResult then
                      \<lparr> l_state = st \<lparr> newGameState := actionResult \<rparr>,
                        playerActionText = actionText, l_oldGameState = old,
                        l_newGameState = actionResult,
                        l_store = saveGameState c gid actionResult \<rparr>
                    else
                      \<lparr> l_state = st \<lparr> newGameState := old \<rparr>,
                        playerActionText = actionText, l_oldGameState = old,
                        l_newGameState = [], l_store = c \<rparr>)))"

definition transitionContext :: "action_locals \<Rightarrow> string" where
  "transitionContext l =
     ''GameWorld: '' @ loadGameWorld (l_store l) (gameId (l_state l))
       @ '' -> OldState: '' @ l_oldGameState l
       @ '' -> PlayerAction: '' @ playerActionText l @ '' -> NewState: '' @ l_newGameState l"

definition jury_submission :: "host \<Rightarrow> nat \<Rightarrow> action_locals \<Rightarrow> int \<Rightarrow> int \<Rightarrow> contract" where
  "jury_submission h user l idx peer_count =
     (let c1 = l_store l;
          (reqs, vote) = processRequest (jury_engine h) (local_juryId h) (activeRequests c1) user
             ''validate_game_action'' (transitionContext l) idx peer_count ''game_engine_context''
      in c1 \<lparr> activeRequests := reqs, npl_out := npl_out c1 @ [vote],
               g_gameActionHandlers :=
                 g_gameActionHandlers c1 @ [(l_state l) \<lparr> action_idx := idx \<rparr>] \<rparr>)"

definition mint_nft_branch :: "host \<Rightarrow> contract \<Rightarrow> nat \<Rightarrow> string \<Rightarrow> contract" where
  "mint_nft_branch h c user data =
     (if \<not> ctx_available h then
        hp_write_user_msg c user (ErrorReply ''Contract context not available'')
      else if \<not> readonly h then
        hp_write_user_msg c user
          (ErrorReply ''NFT minting is temporarily disabled - only read-only mode supported'')
      else if \<not> nft_client_initialized h then
        hp_write_user_msg c user (ErrorReply ''NFT minting client not initialized'')
      else case map_of (game_data c) (nft_path data) of
          None \<Rightarrow> hp_write_user_msg c user
                    (ErrorReply (''NFT data file not found for game: '' @ data))
        | Some (Text t) \<Rightarrow> hp_write_user_msg c user (NftMintResult data False False)
        | Some (NftJson nftData) \<Rightarrow>
            if isAlreadyMinted nftData
            then hp_write_user_msg c user (NftMintResult data True True)
            else hp_write_user_msg (c \<lparr> mint_calls := mint_calls c @ [data] \<rparr>) user
                   (NftMintResult data (mintNFTsForGame h data nftData) False))"

definition process_game_message ::
  "host \<Rightarrow> contract \<Rightarrow> nat \<Rightarrow> string \<Rightarrow> string \<Rightarrow> int \<Rightarrow> int \<Rightarrow> Vote list \<Rightarrow> contract option" where
  "process_game_message h c user act data idx peer_count npl =
     (if \<not> systems_initialized h then
        Some (hp_write_user_msg c user (ErrorReply ''Game systems not initialized''))
      else if \<not> isDaemonRunning h then
        Some (hp_write_user_msg c user (ErrorReply ''AI Daemon not running''))
      else if \<not> isModelReady h \<and> (act = ''create_game'' \<or> act = ''player_action'') then
        Some (hp_write_user_msg c user
                (ErrorReply ''AI model still loading, please try again in a few minutes''))
      else if act = ''create_game'' then
        (let aiResponse = createGame h data in
         if aiResponse \<noteq> [] then
           (let gid = generateGameId (hasher h) (map fst (game_data c)) data [];
                (gameWorldContent, gameStateContent) = separateGameContent aiResponse
            in Some (hp_write_user_msg
                       (saveGameState (saveGameWorld c gid gameWorldContent) gid gameStateContent)
                       user (GameCreated gid)))
         else Some (hp_write_user_msg c user (ErrorReply ''Failed to generate game content'')))
      else if act = ''player_action'' then
        waitForJuryConsensus h
          (jury_submission h user (player_action_branch h c user data) idx peer_count)
          idx peer_count npl
      else if act = ''list_games'' then
        Some (hp_write_user_msg c user (GamesList (listGames (map fst (game_data c)))))
      else if act = ''get_game_state'' then
        (let gameState = loadGameState c data in
         if gameState \<noteq> [] then Some (hp_write_user_msg c user (GameStateReply data gameState))
         else Some (hp_write_user_msg c user (ErrorReply ''Game not found'')))
      else if act = ''mint_nft'' then Some (mint_nft_branch h c user data)
      else Some (hp_write_user_msg c user (ErrorReply (''Unknown action: '' @ act))))"

section \<open>Conditions the claims speak of\<close>

text \<open>
  The validator daemon is unusable for a statement when the TCP probe fails, when its
  status reply cannot be read or is not \<^verbatim>\<open>ready\<close> with the model loaded, or when its
  reply to the statement cannot be parsed, carries an \<^verbatim>\<open>error\<close> key, or has a field of
  the wrong type.
\<close>

definition daemon_unusable :: "jury_daemon \<Rightarrow> string \<Rightarrow> bool" where
  "daemon_unusable dm statement =
     (\<not> pingAIDaemon dm
      \<or> (case ping_status dm of None \<Rightarrow> True
          | Some (st, model_loaded) \<Rightarrow> st \<noteq> ''ready'' \<or> \<not> model_loaded)
      \<or> (case validate_parsed dm statement of Inl what \<Rightarrow> True
          | Inr r \<Rightarrow> j_error r \<noteq> Absent \<or> first_mistyped r \<noteq> None))"

text \<open>The reasons that \<^verbatim>\<open>makeDecision\<close> attaches to its fallback decisions.\<close>

definition is_fallback_reason :: "string \<Rightarrow> bool" where
  "is_fallback_reason r =
     (r = ''AI daemon not running'' \<or> r = ''Failed to parse daemon status''
      \<or> (starts_with r ''AI model not ready ('' \<and> last r = CHR '')'')
      \<or> starts_with r ''AI error: ''
      \<or> starts_with r ''Failed to parse AI response: '')"

text \<open>
  The marker rule in words: a marker occurs at an index when the text from that index on
  starts with it; the rule takes the last occurrence of the begin marker and the first
  occurrence of the end marker at or after the end of that begin marker; when both exist
  the result is the text between them without its leading and trailing whitespace, and
  otherwise the response itself.
\<close>

definition occurs_at :: "string \<Rightarrow> string \<Rightarrow> nat \<Rightarrow> bool" where
  "occurs_at pat s i = (i + length pat \<le> length s \<and> take (length pat) (drop i s) = pat)"





section \<open>Concrete runs\<close>

text \<open>Inputs of the concrete runs that the theorems below are tried on.\<close>

definition vote_of :: "int \<Rightarrow> bool \<Rightarrow> string \<Rightarrow> Vote" where
  "vote_of rid b jid = \<lparr> requestId = rid, isValid = b, confidence = 1, reason = [],
                          juryId = jid, v_context = ''game_engine_context'' \<rparr>"

definition tie_requests :: "RequestState list" where
  "tie_requests = [new_request 0 7 ''validate_game_action'' ''transition'' ''game_engine_context'']"

definition tie_votes :: "Vote \<times> Vote" where
  "tie_votes = (vote_of 7 True ''jury_100001'', vote_of 7 False ''jury_100002'')"

definition dup_requests :: "RequestState list" where
  "dup_requests = [new_request 0 1 ''validate_game_action'' ''transition'' ''game_engine_context'']"

definition dup_vote :: Vote where
  "dup_vote = vote_of 1 True ''jury_100000''"

definition entries_a :: "string list" where
  "entries_a = [''game_world_game_1_77.txt'', ''game_state_game_1_77.txt'']"

definition entries_b :: "string list" where
  "entries_b = [''nft_game_1_5.json'', ''game_world_game_1_5.txt'', ''game_world_.txt'']"

definition down_engine :: jury_daemon where
  "down_engine = \<lparr> pingAIDaemon = False, ping_status = None,
      validate_raw = (\<lambda>s. []), validate_parsed = (\<lambda>s. Inl ''no reply'') \<rparr>"

definition loading_engine :: jury_daemon where
  "loading_engine = \<lparr> pingAIDaemon = True, ping_status = Some (''loading'', False),
      validate_raw = (\<lambda>s. []), validate_parsed = (\<lambda>s. Inl ''no reply'') \<rparr>"

definition empty_reply_engine :: jury_daemon where
  "empty_reply_engine = \<lparr> pingAIDaemon = True, ping_status = Some (''ready'', True),
      validate_raw = (\<lambda>s. ''{}''),
      validate_parsed = (\<lambda>s. Inr \<lparr> j_error = Absent, j_valid = Absent,
                                   j_confidence = Absent, j_reason = Absent \<rparr>) \<rparr>"


definition won_record :: NFTRecord where
  "won_record = \<lparr> nft_game_id = ''g1'', completion_time = 0, winning_action = ''open chest'',
      status = ''won'', final_location = ''vault'', final_health = ''80'', final_score = ''120'',
      player_inventory = ''[golden key]'', nft_tokens = [] \<rparr>"

definition ready_engine :: jury_daemon where
  "ready_engine = \<lparr> pingAIDaemon = True, ping_status = Some (''ready'', True),
      validate_raw = (\<lambda>s. ''{\"valid\":true}''),
      validate_parsed = (\<lambda>s. Inr \<lparr> j_error = Absent, j_valid = Present True,
                                   j_confidence = Present 0.9, j_reason = Absent \<rparr>) \<rparr>"

definition demo_host :: "bool \<Rightarrow> (string \<Rightarrow> string) \<Rightarrow> host" where
  "demo_host ro out = \<lparr> systems_initialized = True, isDaemonRunning = True, isModelReady = True,
      ctx_available = True, readonly = ro, nft_client_initialized = True,
      createGame = (\<lambda>p. ''Game Title: Cave''),
      processPlayerAction = (\<lambda>gid act old world cont. out act),
      mintNFTsForGame = (\<lambda>gid r. True),
      jury_engine = ready_engine, local_juryId = ''jury_100000'',
      hasher = length, now = 0 \<rparr>"

definition won_store :: contract where
  "won_store = \<lparr> game_data = [(''game_world_g1.txt'', Text ''a cave''),
                                (''game_state_g1.txt'', Text ''Game_Status: won''),
                                (''nft_g1.json'', NftJson won_record)],
      activeRequests = [], g_gameActionHandlers = [], user_out = [], npl_out = [],
      mint_calls = [] \<rparr>"

text \<open>The state of request \<open>idx\<close> that every step of the wait keeps.\<close>

definition request_inv :: "int \<Rightarrow> nat \<Rightarrow> nat \<Rightarrow> string \<Rightarrow> GameActionState list \<Rightarrow> contract \<Rightarrow> bool" where
  "request_inv idx i user mt H c =
     (findRequest (activeRequests c) idx = Some i \<and> messageType (activeRequests c ! i) = mt
      \<and> rs_user (activeRequests c ! i) = user \<and> g_gameActionHandlers c = H)"

definition demo_store :: contract where
  "demo_store = \<lparr> game_data = [(''game_world_g1.txt'', Text ''a cave''),
                                 (''game_state_g1.txt'', Text ''Player_Location: entrance'')],
      activeRequests = [], g_gameActionHandlers = [], user_out = [], npl_out = [],
      mint_calls = [] \<rparr>"

definition tunnel_host :: host where
  "tunnel_host = demo_host False
     (\<lambda>a. if a = ''move north'' then ''Player_Location: tunnel'' else ''Player_Location: sky'')"

definition tie_run :: "contract option" where
  "tie_run = process_game_message tunnel_host demo_store 0 ''player_action''
               ''g1:move north:false'' 0 2
               [vote_of 0 True ''jury_100001'', vote_of 0 False ''jury_100002'']"

definition tie_consensus :: Consensus where
  "tie_consensus = \<lparr> cs_user = 0, cs_requestId = 0, decision = False, avgConfidence = 1,
      validVotes = 1, invalidVotes = 1, totalVotes = 2,
      cs_messageType = ''validate_game_action'' \<rparr>"

definition first_run :: "contract option" where
  "first_run = process_game_message tunnel_host demo_store 0 ''player_action''
                 ''g1:move north:false'' 0 1 [vote_of 0 True ''jury_100001'']"

definition second_run :: "contract option" where
  "second_run = process_game_message tunnel_host (the first_run) 0 ''player_action''
                  ''g1:fly:false'' 1 1 [vote_of 1 False ''jury_100001'']"

definition blank_id_store :: contract where
  "blank_id_store = \<lparr> game_data = [(''game_world_.txt'', Text ''a cave''),
                                     (''game_state_.txt'', Text ''Player_Location: entrance'')],
      activeRequests = [], g_gameActionHandlers = [], user_out = [], npl_out = [],
      mint_calls = [] \<rparr>"

definition blank_id_run :: "contract option" where
  "blank_id_run = process_game_message tunnel_host blank_id_store 0 ''player_action''
                    '':move north:false'' 0 1 [vote_of 0 False ''jury_100001'']"

definition verdict :: "int \<Rightarrow> bool \<Rightarrow> Consensus" where
  "verdict rid b = \<lparr> cs_user = 0, cs_requestId = rid, decision = b, avgConfidence = 1,
      validVotes = (if b then 1 else 0), invalidVotes = (if b then 0 else 1), totalVotes = 1,
      cs_messageType = ''validate_game_action'' \<rparr>"








section \<open>Facts about the tally\<close>

lemma findRequest_bound:
  "findRequest rs rid = Some i \<Longrightarrow> i < length rs \<and> rs_requestId (rs ! i) = rid"
  by (induction rs arbitrary: i) (auto split: if_splits)

lemma findRequest_first:
  "findRequest rs rid = Some i \<Longrightarrow> j < i \<Longrightarrow> rs_requestId (rs ! j) \<noteq> rid"
proof (induction rs arbitrary: i j)
  case Nil
  then show ?case by simp
next
  case (Cons r rs)
  then show ?case
    by (cases j) (auto split: if_splits)
qed

lemma findRequest_None:
  "findRequest rs rid = None \<longleftrightarrow> (\<forall>r \<in> set rs. rs_requestId r \<noteq> rid)"
  by (induction rs) auto

lemma findRequest_update:
  "i < length rs \<Longrightarrow> rs_requestId x = rs_requestId (rs ! i) \<Longrightarrow>
   findRequest (rs[i := x]) rid = findRequest rs rid"
proof (induction rs arbitrary: i)
  case Nil
  then show ?case by simp
next
  case (Cons r rs)
  then show ?case by (cases i) auto
qed

lemma count_vote_id [simp]: "rs_requestId (count_vote st v) = rs_requestId st"
  by (simp add: count_vote_def)

lemma count_vote_received [simp]: "received (count_vote st v) = received st + 1"
  by (simp add: count_vote_def)

lemma count_vote_tally:
  "tally (count_vote st v) =
     (fst (tally st) + (if isValid v then 0 else 1), snd (tally st) + (if isValid v then 1 else 0))"
  by (simp add: count_vote_def)

lemma processVote_known:
  assumes "findRequest rs (requestId v) = Some i"
  shows "processVote rs v pc =
     (if pc \<le> received (rs ! i) + 1
      then (rs[i := count_vote (rs ! i) v \<lparr> resolved := True \<rparr>],
            Some (sendConsensusResult (count_vote (rs ! i) v)
                   (snd (tally (count_vote (rs ! i) v)) > fst (tally (count_vote (rs ! i) v)))
                   ((fst (confidenceSum (count_vote (rs ! i) v))
                       + snd (confidenceSum (count_vote (rs ! i) v)))
                      / real_of_int (received (rs ! i) + 1))
                   (snd (tally (count_vote (rs ! i) v))) (fst (tally (count_vote (rs ! i) v)))
                   (received (rs ! i) + 1)))
      else (rs[i := count_vote (rs ! i) v], None))"
  using assms by (simp add: processVote_def Let_def)

lemma processVote_unknown:
  "findRequest rs (requestId v) = None \<Longrightarrow> processVote rs v pc = (rs, None)"
  by (simp add: processVote_def)

lemma processVote_fst_nth:
  assumes "findRequest rs (requestId v) = Some i"
  shows "received (fst (processVote rs v pc) ! i) = received (rs ! i) + 1"
    and "tally (fst (processVote rs v pc) ! i) = tally (count_vote (rs ! i) v)"
    and "resolved (fst (processVote rs v pc) ! i) = (resolved (rs ! i) \<or> pc \<le> received (rs ! i) + 1)"
    and "findRequest (fst (processVote rs v pc)) rid = findRequest rs rid"
    and "(snd (processVote rs v pc) = None) = (received (rs ! i) + 1 < pc)"
proof -
  have i: "i < length rs" using assms by (simp add: findRequest_bound)
  show "received (fst (processVote rs v pc) ! i) = received (rs ! i) + 1"
    using i by (simp add: processVote_known [OF assms])
  show "tally (fst (processVote rs v pc) ! i) = tally (count_vote (rs ! i) v)"
    using i by (simp add: processVote_known [OF assms])
  show "resolved (fst (processVote rs v pc) ! i) = (resolved (rs ! i) \<or> pc \<le> received (rs ! i) + 1)"
    using i by (simp add: processVote_known [OF assms] count_vote_def)
  show "findRequest (fst (processVote rs v pc)) rid = findRequest rs rid"
    using i by (simp add: processVote_known [OF assms] findRequest_update)
  show "(snd (processVote rs v pc) = None) = (received (rs ! i) + 1 < pc)"
    by (auto simp add: processVote_known [OF assms])
qed

section \<open>C4: the majority rule\<close>

text \<open>
  Claim C4. When a vote brings the received count of its request up to \<open>peerCount\<close>,
  \<^verbatim>\<open>processVote\<close> dispatches a consensus whose decision is VALID exactly when the valid
  tally (this vote counted) is strictly greater than the invalid tally, and marks the
  request resolved. An equal split therefore resolves INVALID; the witness runs the
  two-peer case with one valid and one invalid vote.
\<close>

theorem processVote_majority:
  assumes "findRequest rs (requestId v) = Some i"
      and "peerCount \<le> received (rs ! i) + 1"
  shows "map_option decision (snd (processVote rs v peerCount)) =
           Some (snd (tally (rs ! i)) + (if isValid v then 1 else 0)
                   > fst (tally (rs ! i)) + (if isValid v then 0 else 1))
         \<and> resolved (fst (processVote rs v peerCount) ! i)"
proof -
  have i: "i < length rs" using assms(1) by (simp add: findRequest_bound)
  show ?thesis
    using assms(2) i
    by (simp add: processVote_known [OF assms(1)] sendConsensusResult_def count_vote_tally)
qed

theorem processVote_majority_witness:
  "findRequest (fst (processVote tie_requests (fst tie_votes) 2)) (requestId (snd tie_votes)) = Some 0
   \<and> (2::int) \<le> received (fst (processVote tie_requests (fst tie_votes) 2) ! 0) + 1
   \<and> snd (processVote tie_requests (fst tie_votes) 2) = None
   \<and> tally (fst (processVote (fst (processVote tie_requests (fst tie_votes) 2)) (snd tie_votes) 2) ! 0) = (1, 1)
   \<and> map_option decision
        (snd (processVote (fst (processVote tie_requests (fst tie_votes) 2)) (snd tie_votes) 2)) = Some False
   \<and> resolved (fst (processVote (fst (processVote tie_requests (fst tie_votes) 2)) (snd tie_votes) 2) ! 0)"
  using processVote_majority [of "fst (processVote tie_requests (fst tie_votes) 2)" "snd tie_votes" 0 2]
  by (simp add: Let_def processVote_def new_request_def tie_votes_def tie_requests_def vote_of_def
        count_vote_def sendConsensusResult_def)

section \<open>C2: duplicate and late votes\<close>

text \<open>
  Claim C2 says that a vote fed twice to \<^verbatim>\<open>processVote\<close> counts once, and that a vote for
  an already resolved request is ignored. \<^verbatim>\<open>processVote\<close> keeps no record of the jury
  ids it has seen and does not read \<^verbatim>\<open>resolved\<close>: with one peer, the first delivery
  resolves the request with one vote received, and the second delivery of the same vote
  raises the count to two, raises the valid tally to two and dispatches a second
  consensus result.
\<close>

theorem processVote_duplicate_counterexample:
  "received (fst (processVote dup_requests dup_vote 1) ! 0) = 1
   \<and> resolved (fst (processVote dup_requests dup_vote 1) ! 0)
   \<and> tally (fst (processVote dup_requests dup_vote 1) ! 0) = (0, 1)
   \<and> received (fst (processVote (fst (processVote dup_requests dup_vote 1)) dup_vote 1) ! 0) = 2
   \<and> tally (fst (processVote (fst (processVote dup_requests dup_vote 1)) dup_vote 1) ! 0) = (0, 2)
   \<and> map_option totalVotes
        (snd (processVote (fst (processVote dup_requests dup_vote 1)) dup_vote 1)) = Some 2"
  by (simp add: dup_requests_def dup_vote_def vote_of_def processVote_def new_request_def count_vote_def
       sendConsensusResult_def Let_def)

text \<open>
  Claim C2 as amended. Every delivery of a vote whose request id names an active request
  is counted: two deliveries of the same vote add two to the received count and two to
  the tally of the vote's side. A consensus result is dispatched at each delivery that
  leaves the received count at or above \<open>peerCount\<close>, whether or not the request was
  resolved before, and the request is resolved from the first such delivery on.
\<close>

theorem processVote_counts_every_delivery:
  assumes "findRequest rs (requestId v) = Some i"
  shows "received (fst (processVote (fst (processVote rs v pc)) v pc) ! i) = received (rs ! i) + 2
       \<and> tally (fst (processVote (fst (processVote rs v pc)) v pc) ! i)
           = (fst (tally (rs ! i)) + (if isValid v then 0 else 2),
              snd (tally (rs ! i)) + (if isValid v then 2 else 0))
       \<and> resolved (fst (processVote (fst (processVote rs v pc)) v pc) ! i)
           = (resolved (rs ! i) \<or> pc \<le> received (rs ! i) + 2)
       \<and> (snd (processVote rs v pc) = None) = (received (rs ! i) + 1 < pc)
       \<and> (snd (processVote (fst (processVote rs v pc)) v pc) = None) = (received (rs ! i) + 2 < pc)"
proof -
  let ?rs1 = "fst (processVote rs v pc)"
  have f1: "findRequest ?rs1 (requestId v) = Some i"
    using assms by (simp add: processVote_fst_nth(4) [OF assms])
  note one = processVote_fst_nth [OF assms, of pc]
  note two = processVote_fst_nth [OF f1, of pc]
  show ?thesis
    by (auto simp add: one two count_vote_tally)
qed

theorem processVote_counts_every_delivery_witness:
  "findRequest dup_requests (requestId dup_vote) = Some 0
   \<and> received (fst (processVote (fst (processVote dup_requests dup_vote 3)) dup_vote 3) ! 0) = 2
   \<and> tally (fst (processVote (fst (processVote dup_requests dup_vote 3)) dup_vote 3) ! 0) = (0, 2)
   \<and> \<not> resolved (fst (processVote (fst (processVote dup_requests dup_vote 3)) dup_vote 3) ! 0)
   \<and> snd (processVote (fst (processVote dup_requests dup_vote 3)) dup_vote 3) = None"
  using processVote_counts_every_delivery [of dup_requests dup_vote 0 3]
  by (simp add: dup_requests_def dup_vote_def vote_of_def new_request_def)

section \<open>C7: game ids\<close>

text \<open>
  Claim C7. \<^verbatim>\<open>generateGameId\<close> reads the node's store only through the number of games
  that \<^verbatim>\<open>listGames\<close> finds there: two invocations with the same prompt, the same user
  key and the same count of existing games return the same id. The hash is
  \<^verbatim>\<open>std::hash<std::string>\<close>, a parameter here, the same function in both invocations.
\<close>

theorem generateGameId_deterministic:
  assumes "length (listGames entries1) = length (listGames entries2)"
  shows "generateGameId hs entries1 userPrompt userIdHex = generateGameId hs entries2 userPrompt userIdHex"
  using assms by (simp add: generateGameId_def)

theorem generateGameId_deterministic_witness:
  "length (listGames entries_a) = length (listGames entries_b)
   \<and> generateGameId length entries_a ''cave survival'' [] = generateGameId length entries_b ''cave survival'' []
   \<and> generateGameId length entries_b ''cave survival'' [] = ''game_2_13''"
  using generateGameId_deterministic [of entries_a entries_b length "''cave survival''" "[]"]
  by (simp add: entries_a_def entries_b_def listGames_def generateGameId_def substr_def)

section \<open>C6: the fallback decision\<close>

lemma fallback_sel [simp]:
  "d_isValid (fallback r)" "d_confidence (fallback r) = 0.1" "d_reason (fallback r) = r"
  "metadata (fallback r) = []"
  by (simp_all add: fallback_def)

lemma starts_with_append [simp]: "starts_with (p @ s) p"
  by (simp add: starts_with_def)

lemma is_fallback_reason_intros:
  "is_fallback_reason ''AI daemon not running''"
  "is_fallback_reason ''Failed to parse daemon status''"
  "is_fallback_reason (''AI model not ready ('' @ st @ '')'')"
  "is_fallback_reason (''AI error: '' @ e)"
  "is_fallback_reason (''Failed to parse AI response: '' @ w)"
proof -
  show "is_fallback_reason ''AI daemon not running''" by (simp add: is_fallback_reason_def)
  show "is_fallback_reason ''Failed to parse daemon status''" by (simp add: is_fallback_reason_def)
  have "starts_with (''AI model not ready ('' @ (st @ '')'')) ''AI model not ready (''"
    by (rule starts_with_append)
  moreover have "last (''AI model not ready ('' @ st @ '')'') = CHR '')''" by simp
  ultimately show "is_fallback_reason (''AI model not ready ('' @ st @ '')'')"
    unfolding is_fallback_reason_def by blast
  have "starts_with (''AI error: '' @ e) ''AI error: ''" by (rule starts_with_append)
  then show "is_fallback_reason (''AI error: '' @ e)"
    unfolding is_fallback_reason_def by blast
  have "starts_with (''Failed to parse AI response: '' @ w) ''Failed to parse AI response: ''"
    by (rule starts_with_append)
  then show "is_fallback_reason (''Failed to parse AI response: '' @ w)"
    unfolding is_fallback_reason_def by blast
qed

lemma is_fallback_reason_not_ready: "is_fallback_reason r \<Longrightarrow> r \<noteq> ''AI not ready''"
  by (auto simp add: is_fallback_reason_def starts_with_def)

lemma makeDecision_unusable:
  assumes "daemon_unusable dm mdata"
  shows "\<exists>r. makeDecision dm mtype mdata ctx = fallback r \<and> is_fallback_reason r"
proof (cases "pingAIDaemon dm")
  case False
  then have "makeDecision dm mtype mdata ctx = fallback ''AI daemon not running''"
    by (simp add: makeDecision_def)
  then show ?thesis using is_fallback_reason_intros(1) by blast
next
  case ping: True
  show ?thesis
  proof (cases "ping_status dm")
    case None
    then have "makeDecision dm mtype mdata ctx = fallback ''Failed to parse daemon status''"
      using ping by (simp add: makeDecision_def)
    then show ?thesis using is_fallback_reason_intros(2) by blast
  next
    case (Some p)
    obtain st ml where p: "p = (st, ml)" by (cases p)
    show ?thesis
    proof (cases "st \<noteq> ''ready'' \<or> \<not> ml")
      case True
      then have "makeDecision dm mtype mdata ctx = fallback (''AI model not ready ('' @ st @ '')'')"
        using ping Some p by (simp add: makeDecision_def)
      then show ?thesis using is_fallback_reason_intros(3) by blast
    next
      case ready: False
      show ?thesis
      proof (cases "validate_parsed dm mdata")
        case (Inl w)
        then have "makeDecision dm mtype mdata ctx = fallback (''Failed to parse AI response: '' @ w)"
          using ping Some p ready by (simp add: makeDecision_def)
        then show ?thesis using is_fallback_reason_intros(5) by blast
      next
        case (Inr r)
        show ?thesis
        proof (cases "j_error r")
          case Absent
          with assms ping Some p ready Inr obtain w where w: "first_mistyped r = Some w"
            by (auto simp add: daemon_unusable_def)
          have "makeDecision dm mtype mdata ctx = fallback (''Failed to parse AI response: '' @ w)"
            using ping Some p ready Inr Absent w by (simp add: makeDecision_def)
          then show ?thesis using is_fallback_reason_intros(5) by blast
        next
          case (Mistyped w)
          then have "makeDecision dm mtype mdata ctx = fallback (''Failed to parse AI response: '' @ w)"
            using ping Some p ready Inr by (simp add: makeDecision_def)
          then show ?thesis using is_fallback_reason_intros(5) by blast
        next
          case (Present e)
          then have "makeDecision dm mtype mdata ctx = fallback (''AI error: '' @ e)"
            using ping Some p ready Inr by (simp add: makeDecision_def)
          then show ?thesis using is_fallback_reason_intros(4) by blast
        qed
      qed
    qed
  qed
qed

text \<open>
  Claim C6 names the fallback decision as valid, confidence 0.1, reason
  \<^verbatim>\<open>AI not ready\<close>. With the daemon absent \<^verbatim>\<open>makeDecision\<close> returns valid and 0.1, but
  the reason it stores is \<^verbatim>\<open>AI daemon not running\<close>; no branch stores the text
  \<^verbatim>\<open>AI not ready\<close>. A reply that parses but carries none of the fields is not a fallback
  case at all: the decision keeps its initial values, invalid with confidence 0.
\<close>

theorem makeDecision_reason_counterexample:
  "daemon_unusable down_engine ''transition''
   \<and> d_isValid (makeDecision down_engine ''validate_game_action'' ''transition'' ''game_engine_context'')
   \<and> d_confidence (makeDecision down_engine ''validate_game_action'' ''transition'' ''game_engine_context'') = 0.1
   \<and> d_reason (makeDecision down_engine ''validate_game_action'' ''transition'' ''game_engine_context'')
        = ''AI daemon not running''
   \<and> d_reason (makeDecision down_engine ''validate_game_action'' ''transition'' ''game_engine_context'')
        \<noteq> ''AI not ready''
   \<and> makeDecision empty_reply_engine ''validate_game_action'' ''transition'' ''game_engine_context''
        = \<lparr> d_isValid = False, d_confidence = 0, d_reason = ''AI model not available'',
            metadata = ''{}'' \<rparr>"
  by (simp add: makeDecision_def down_engine_def empty_reply_engine_def fallback_def
        daemon_unusable_def first_mistyped_def)

text \<open>
  Claim C6 as amended. Whenever the validator daemon is unusable in the sense of
  \<open>daemon_unusable\<close>, \<^verbatim>\<open>makeDecision\<close> returns a decision with \<open>isValid = true\<close> and
  confidence 0.1 whose reason names the condition (one of the five texts of
  \<open>is_fallback_reason\<close>, never \<^verbatim>\<open>AI not ready\<close>), and the vote that \<^verbatim>\<open>processRequest\<close>
  broadcasts carries \<open>isValid = true\<close> and confidence 0.1.
\<close>

theorem makeDecision_fallback:
  assumes "daemon_unusable dm mdata"
  shows "d_isValid (makeDecision dm mtype mdata ctx)
       \<and> d_confidence (makeDecision dm mtype mdata ctx) = 0.1
       \<and> is_fallback_reason (d_reason (makeDecision dm mtype mdata ctx))
       \<and> d_reason (makeDecision dm mtype mdata ctx) \<noteq> ''AI not ready''
       \<and> isValid (snd (processRequest dm jid reqs user mtype mdata rid peerCount ctx))
       \<and> confidence (snd (processRequest dm jid reqs user mtype mdata rid peerCount ctx)) = 0.1"
proof -
  from makeDecision_unusable [OF assms, of mtype ctx]
  obtain r where d: "makeDecision dm mtype mdata ctx = fallback r" and r: "is_fallback_reason r"
    by blast
  show ?thesis
    using r is_fallback_reason_not_ready [OF r]
    by (simp add: d processRequest_def Let_def)
qed

theorem makeDecision_fallback_witness:
  "daemon_unusable loading_engine ''transition''
   \<and> makeDecision loading_engine ''validate_game_action'' ''transition'' ''game_engine_context''
       = \<lparr> d_isValid = True, d_confidence = 0.1, d_reason = ''AI model not ready (loading)'',
           metadata = [] \<rparr>
   \<and> isValid (snd (processRequest loading_engine ''jury_100000'' [] 0 ''validate_game_action''
                    ''transition'' 0 3 ''game_engine_context''))
   \<and> confidence (snd (processRequest loading_engine ''jury_100000'' [] 0 ''validate_game_action''
                    ''transition'' 0 3 ''game_engine_context'')) = 0.1"
  using makeDecision_fallback [of loading_engine "''transition''" "''validate_game_action''"
          "''game_engine_context''" "''jury_100000''" "[]" 0 0 3]
  by (simp add: loading_engine_def daemon_unusable_def makeDecision_def fallback_def)

section \<open>C9: minting outside read-only rounds\<close>

text \<open>
  Claim C9. In a round that is not read-only, a \<^verbatim>\<open>mint_nft\<close> request ends in an error
  reply: the only change to the contract's state is that reply, so the external signer
  is not called and no file of the store (no NFT file in particular) is touched. The
  witness runs the same request on the same store in a read-only round as well, where
  the signer is called.
\<close>

theorem mint_nft_refused_outside_readonly:
  assumes "\<not> readonly h"
  shows "\<exists>msg c'. process_game_message h c user ''mint_nft'' data idx peer_count npl = Some c'
           \<and> user_out c' = user_out c @ [(user, ErrorReply msg)]
           \<and> mint_calls c' = mint_calls c \<and> game_data c' = game_data c"
  using assms
  by (auto simp add: process_game_message_def mint_nft_branch_def hp_write_user_msg_def)

theorem mint_nft_refused_outside_readonly_witness:
  "\<not> readonly (demo_host False (\<lambda>a. []))
   \<and> process_game_message (demo_host False (\<lambda>a. [])) won_store 0 ''mint_nft'' ''g1'' 0 3 []
       = Some (won_store \<lparr> user_out :=
           [(0, ErrorReply ''NFT minting is temporarily disabled - only read-only mode supported'')] \<rparr>)
   \<and> map_option mint_calls
        (process_game_message (demo_host True (\<lambda>a. [])) won_store 0 ''mint_nft'' ''g1'' 0 3 []) = Some [''g1'']"
  using mint_nft_refused_outside_readonly [of "demo_host False (\<lambda>a. [])" won_store 0 "''g1''" 0 3 "[]"]
  by (simp add: process_game_message_def mint_nft_branch_def hp_write_user_msg_def demo_host_def
        won_store_def nft_path_def isAlreadyMinted_def won_record_def)

section \<open>C8: the marker rule\<close>


lemma occurs_at_Cons_Suc [simp]: "occurs_at pat (c # cs) (Suc i) = occurs_at pat cs i"
  by (simp add: occurs_at_def)

















section \<open>The store, the wait for consensus and the reply\<close>

lemma hp_write_user_msg_sel [simp]:
  "game_data (hp_write_user_msg c u r) = game_data c"
  "activeRequests (hp_write_user_msg c u r) = activeRequests c"
  "g_gameActionHandlers (hp_write_user_msg c u r) = g_gameActionHandlers c"
  "user_out (hp_write_user_msg c u r) = user_out c @ [(u, r)]"
  "npl_out (hp_write_user_msg c u r) = npl_out c"
  "mint_calls (hp_write_user_msg c u r) = mint_calls c"
  by (simp_all add: hp_write_user_msg_def)

lemma saveGameState_sel [simp]:
  "game_data (saveGameState c gid s) = AList.update (state_path gid) (Text s) (game_data c)"
  "activeRequests (saveGameState c gid s) = activeRequests c"
  "g_gameActionHandlers (saveGameState c gid s) = g_gameActionHandlers c"
  "user_out (saveGameState c gid s) = user_out c"
  "npl_out (saveGameState c gid s) = npl_out c"
  "mint_calls (saveGameState c gid s) = mint_calls c"
  by (simp_all add: saveGameState_def)

lemma extractPlayerInventory_sel [simp]:
  "activeRequests (extractPlayerInventory h c gid s a) = activeRequests c"
  "g_gameActionHandlers (extractPlayerInventory h c gid s a) = g_gameActionHandlers c"
  "user_out (extractPlayerInventory h c gid s a) = user_out c"
  "npl_out (extractPlayerInventory h c gid s a) = npl_out c"
  "mint_calls (extractPlayerInventory h c gid s a) = mint_calls c"
  by (simp_all add: extractPlayerInventory_def)

lemma state_path_inj [simp]: "(state_path g = state_path g') = (g = g')"
  by (simp add: state_path_def)

lemma path_distinct [simp]:
  "state_path g \<noteq> nft_path g'" "nft_path g' \<noteq> state_path g"
  "state_path g \<noteq> world_path g'" "world_path g' \<noteq> state_path g"
  "world_path g \<noteq> nft_path g'" "nft_path g' \<noteq> world_path g"
  by (simp_all add: state_path_def nft_path_def world_path_def)

lemma nft_path_inj [simp]: "(nft_path g = nft_path g') = (g = g')"
  by (simp add: nft_path_def)

lemma read_text_update:
  "read_text (AList.update k v dir) p = (if p = k then (case v of Text t \<Rightarrow> t | _ \<Rightarrow> []) else read_text dir p)"
  by (simp add: read_text_def update_conv')

lemma loadGameState_save [simp]:
  "loadGameState (saveGameState c gid s) g = (if g = gid then s else loadGameState c g)"
  by (simp add: loadGameState_def read_text_update)

lemma loadGameWorld_save [simp]:
  "loadGameWorld (saveGameState c gid s) g = loadGameWorld c g"
  by (simp add: loadGameWorld_def read_text_update)

lemma loadGameState_extract [simp]:
  "loadGameState (extractPlayerInventory h c gid s a) g = loadGameState c g"
  by (simp add: loadGameState_def extractPlayerInventory_def read_text_update)

lemma loadGameState_reply [simp]:
  "loadGameState (hp_write_user_msg c u r) g = loadGameState c g"
  by (simp add: loadGameState_def)

lemma juryUserResponse_static [simp]:
  "activeRequests (juryUserResponse h c u cons) = activeRequests c"
  "g_gameActionHandlers (juryUserResponse h c u cons) = g_gameActionHandlers c"
  "npl_out (juryUserResponse h c u cons) = npl_out c"
  "mint_calls (juryUserResponse h c u cons) = mint_calls c"
  by (simp_all add: juryUserResponse_def split: option.splits)

lemma process_jury_vote_static [simp]:
  "activeRequests (process_jury_vote h c v pc) = fst (processVote (activeRequests c) v pc)"
  "g_gameActionHandlers (process_jury_vote h c v pc) = g_gameActionHandlers c"
  "npl_out (process_jury_vote h c v pc) = npl_out c"
  "mint_calls (process_jury_vote h c v pc) = mint_calls c"
  by (simp_all add: process_jury_vote_def split: prod.splits option.splits)

lemma process_jury_vote_quiet:
  "snd (processVote (activeRequests c) v pc) = None \<Longrightarrow>
   process_jury_vote h c v pc = c \<lparr> activeRequests := fst (processVote (activeRequests c) v pc) \<rparr>"
  by (cases "processVote (activeRequests c) v pc") (simp add: process_jury_vote_def)

lemma process_jury_vote_dispatch:
  "snd (processVote (activeRequests c) v pc) = Some cons \<Longrightarrow>
   process_jury_vote h c v pc =
     juryUserResponse h (c \<lparr> activeRequests := fst (processVote (activeRequests c) v pc) \<rparr>)
       (cs_user cons) cons"
  by (cases "processVote (activeRequests c) v pc") (simp add: process_jury_vote_def)

lemma isConsensusReached_find:
  "isConsensusReached rs rid = (case findRequest rs rid of None \<Rightarrow> False | Some i \<Rightarrow> resolved (rs ! i))"
  by (induction rs) (auto split: option.splits)

lemma processVote_find [simp]:
  "findRequest (fst (processVote rs v pc)) rid = findRequest rs rid"
proof (cases "findRequest rs (requestId v)")
  case None
  then show ?thesis by (simp add: processVote_unknown)
next
  case (Some i)
  then show ?thesis by (rule processVote_fst_nth(4))
qed

lemma processVote_other:
  assumes "findRequest rs rid = Some i" and "requestId v \<noteq> rid"
  shows "fst (processVote rs v pc) ! i = rs ! i"
    and "\<And>cons. snd (processVote rs v pc) = Some cons \<Longrightarrow> cs_requestId cons \<noteq> rid"
proof -
  show "fst (processVote rs v pc) ! i = rs ! i"
  proof (cases "findRequest rs (requestId v)")
    case None
    then show ?thesis by (simp add: processVote_unknown)
  next
    case (Some j)
    have "rs_requestId (rs ! j) = requestId v" using Some by (simp add: findRequest_bound)
    moreover have "rs_requestId (rs ! i) = rid" using assms(1) by (simp add: findRequest_bound)
    ultimately have "j \<noteq> i" using assms(2) by auto
    then show ?thesis by (simp add: processVote_known [OF Some])
  qed
  fix cons assume d: "snd (processVote rs v pc) = Some cons"
  show "cs_requestId cons \<noteq> rid"
  proof (cases "findRequest rs (requestId v)")
    case None
    then show ?thesis using d by (simp add: processVote_unknown)
  next
    case (Some j)
    have "rs_requestId (rs ! j) = requestId v" using Some by (simp add: findRequest_bound)
    then show ?thesis
      using d assms(2)
      by (auto simp add: processVote_known [OF Some] sendConsensusResult_def split: if_splits)
  qed
qed

lemma processVote_same:
  assumes "findRequest rs (requestId v) = Some i"
  shows "snd (processVote rs v pc) = None \<Longrightarrow> resolved (fst (processVote rs v pc) ! i) = resolved (rs ! i)"
    and "\<And>cons. snd (processVote rs v pc) = Some cons \<Longrightarrow>
           cs_requestId cons = requestId v \<and> cs_user cons = rs_user (rs ! i)
           \<and> cs_messageType cons = messageType (rs ! i)
           \<and> decision cons = (fst (tally (fst (processVote rs v pc) ! i))
                                 < snd (tally (fst (processVote rs v pc) ! i)))
           \<and> validVotes cons = snd (tally (fst (processVote rs v pc) ! i))
           \<and> invalidVotes cons = fst (tally (fst (processVote rs v pc) ! i))"
    and "rs_user (fst (processVote rs v pc) ! i) = rs_user (rs ! i)"
    and "messageType (fst (processVote rs v pc) ! i) = messageType (rs ! i)"
proof -
  have i: "i < length rs" and id: "rs_requestId (rs ! i) = requestId v"
    using assms by (simp_all add: findRequest_bound)
  show "snd (processVote rs v pc) = None \<Longrightarrow> resolved (fst (processVote rs v pc) ! i) = resolved (rs ! i)"
    using i by (auto simp add: processVote_known [OF assms] count_vote_def split: if_splits)
  show "rs_user (fst (processVote rs v pc) ! i) = rs_user (rs ! i)"
    using i by (simp add: processVote_known [OF assms] count_vote_def)
  show "messageType (fst (processVote rs v pc) ! i) = messageType (rs ! i)"
    using i by (simp add: processVote_known [OF assms] count_vote_def)
  fix cons assume "snd (processVote rs v pc) = Some cons"
  then show "cs_requestId cons = requestId v \<and> cs_user cons = rs_user (rs ! i)
           \<and> cs_messageType cons = messageType (rs ! i)
           \<and> decision cons = (fst (tally (fst (processVote rs v pc) ! i))
                                 < snd (tally (fst (processVote rs v pc) ! i)))
           \<and> validVotes cons = snd (tally (fst (processVote rs v pc) ! i))
           \<and> invalidVotes cons = fst (tally (fst (processVote rs v pc) ! i))"
    using i id
    by (auto simp add: processVote_known [OF assms] sendConsensusResult_def count_vote_def
          split: if_splits)
qed

lemma processVote_dispatch_resolves:
  assumes "findRequest rs (requestId v) = Some i" and "snd (processVote rs v pc) = Some cons"
  shows "resolved (fst (processVote rs v pc) ! i)"
proof -
  have i: "i < length rs" using assms(1) by (simp add: findRequest_bound)
  show ?thesis
    using assms(2) i by (auto simp add: processVote_known [OF assms(1)] split: if_splits)
qed

lemma wait_reached:
  "isConsensusReached (activeRequests c) idx \<Longrightarrow> waitForJuryConsensus h c idx pc npl = Some c"
  by (cases npl) simp_all

lemma wait_last_step:
  assumes "waitForJuryConsensus h c idx pc npl = Some c'"
      and "\<not> isConsensusReached (activeRequests c) idx"
      and "I c"
      and "\<And>c v. I c \<Longrightarrow> v \<in> set npl \<Longrightarrow> \<not> isConsensusReached (activeRequests c) idx \<Longrightarrow>
             \<not> isConsensusReached (activeRequests (process_jury_vote h c v pc)) idx \<Longrightarrow>
             I (process_jury_vote h c v pc)"
  shows "\<exists>c0 v. I c0 \<and> v \<in> set npl \<and> \<not> isConsensusReached (activeRequests c0) idx
           \<and> c' = process_jury_vote h c0 v pc \<and> isConsensusReached (activeRequests c') idx"
  using assms
proof (induction npl arbitrary: c)
  case Nil
  then show ?case by simp
next
  case (Cons v vs)
  let ?c1 = "process_jury_vote h c v pc"
  have run: "waitForJuryConsensus h ?c1 idx pc vs = Some c'"
    using Cons.prems(1) Cons.prems(2) by simp
  show ?case
  proof (cases "isConsensusReached (activeRequests ?c1) idx")
    case True
    then have "c' = ?c1" using run by (simp add: wait_reached)
    then show ?thesis using True Cons.prems(2) Cons.prems(3) by auto
  next
    case False
    have I1: "I ?c1" using Cons.prems(4) [OF Cons.prems(3) _ Cons.prems(2) False] by simp
    have "\<exists>c0 v'. I c0 \<and> v' \<in> set vs \<and> \<not> isConsensusReached (activeRequests c0) idx
           \<and> c' = process_jury_vote h c0 v' pc \<and> isConsensusReached (activeRequests c') idx"
    proof (rule Cons.IH [OF run False I1])
      fix c2 v2
      assume "I c2" "v2 \<in> set vs" "\<not> isConsensusReached (activeRequests c2) idx"
        "\<not> isConsensusReached (activeRequests (process_jury_vote h c2 v2 pc)) idx"
      then show "I (process_jury_vote h c2 v2 pc)"
        using Cons.prems(4) [of c2 v2] by simp
    qed
    then show ?thesis by auto
  qed
qed

lemma resolving_vote:
  assumes "findRequest (activeRequests c0) idx = Some i"
      and "\<not> isConsensusReached (activeRequests c0) idx"
      and "isConsensusReached (activeRequests (process_jury_vote h c0 v pc)) idx"
  shows "requestId v = idx \<and> (\<exists>cons. snd (processVote (activeRequests c0) v pc) = Some cons)"
proof -
  have before: "\<not> resolved (activeRequests c0 ! i)"
    using assms(1) assms(2) by (simp add: isConsensusReached_find)
  have after: "resolved (fst (processVote (activeRequests c0) v pc) ! i)"
    using assms(1) assms(3) by (simp add: isConsensusReached_find)
  have same: "requestId v = idx"
  proof (rule ccontr)
    assume "requestId v \<noteq> idx"
    then have "fst (processVote (activeRequests c0) v pc) ! i = activeRequests c0 ! i"
      using assms(1) by (simp add: processVote_other(1))
    with before after show False by simp
  qed
  have f: "findRequest (activeRequests c0) (requestId v) = Some i" using assms(1) same by simp
  have "snd (processVote (activeRequests c0) v pc) \<noteq> None"
  proof
    assume "snd (processVote (activeRequests c0) v pc) = None"
    then have "resolved (fst (processVote (activeRequests c0) v pc) ! i) = resolved (activeRequests c0 ! i)"
      by (rule processVote_same(1) [OF f])
    with before after show False by simp
  qed
  then show ?thesis using same by auto
qed

lemma request_inv_step:
  assumes "request_inv idx i user mt H c"
  shows "request_inv idx i user mt H (process_jury_vote h c v pc)"
proof (cases "requestId v = idx")
  case True
  then have f: "findRequest (activeRequests c) (requestId v) = Some i"
    using assms by (simp add: request_inv_def)
  show ?thesis
    using assms by (simp add: request_inv_def processVote_same(3,4) [OF f])
next
  case False
  have f: "findRequest (activeRequests c) idx = Some i" using assms by (simp add: request_inv_def)
  show ?thesis
    using assms by (simp add: request_inv_def processVote_other(1) [OF f False])
qed

lemma wait_outcome:
  assumes run: "waitForJuryConsensus h c idx pc npl = Some c'"
      and unres: "\<not> isConsensusReached (activeRequests c) idx"
      and inv: "request_inv idx i user mt H c"
  shows "\<exists>c0 cons. c' = juryUserResponse h c0 user cons \<and> cs_requestId cons = idx
           \<and> cs_messageType cons = mt \<and> g_gameActionHandlers c0 = H
           \<and> decision cons = (fst (tally (activeRequests c' ! i)) < snd (tally (activeRequests c' ! i)))"
proof -
  from wait_last_step [where I = "request_inv idx i user mt H", OF run unres inv]
  obtain c0 v where c0: "request_inv idx i user mt H c0"
      "\<not> isConsensusReached (activeRequests c0) idx" "c' = process_jury_vote h c0 v pc"
      "isConsensusReached (activeRequests c') idx"
    using request_inv_step by blast
  have f: "findRequest (activeRequests c0) idx = Some i" using c0(1) by (simp add: request_inv_def)
  from resolving_vote [OF f c0(2)] c0(3) c0(4)
  obtain cons where v: "requestId v = idx" and d: "snd (processVote (activeRequests c0) v pc) = Some cons"
    by blast
  have fv: "findRequest (activeRequests c0) (requestId v) = Some i" using f v by simp
  note props = processVote_same(2) [OF fv d]
  let ?c1 = "c0 \<lparr> activeRequests := fst (processVote (activeRequests c0) v pc) \<rparr>"
  have u: "cs_user cons = user" using props c0(1) by (simp add: request_inv_def)
  have 1: "c' = juryUserResponse h ?c1 user cons"
    using c0(3) d u by (simp add: process_jury_vote_dispatch)
  have 2: "cs_messageType cons = mt" using props c0(1) by (simp add: request_inv_def)
  have 3: "cs_requestId cons = idx" using props v by simp
  have 4: "g_gameActionHandlers ?c1 = H" using c0(1) by (simp add: request_inv_def)
  have ar: "activeRequests c' = fst (processVote (activeRequests c0) v pc)"
    using c0(3) by simp
  have 5: "decision cons = (fst (tally (activeRequests c' ! i)) < snd (tally (activeRequests c' ! i)))"
    using props by (simp add: ar)
  from 1 2 3 4 5 show ?thesis by blast
qed

lemma quiet_step:
  assumes inv: "request_inv idx i user mt H c"
      and v: "requestId v = idx"
      and after: "\<not> isConsensusReached (activeRequests (process_jury_vote h c v pc)) idx"
  shows "process_jury_vote h c v pc = c \<lparr> activeRequests := fst (processVote (activeRequests c) v pc) \<rparr>"
proof -
  have f: "findRequest (activeRequests c) (requestId v) = Some i"
    using inv v by (simp add: request_inv_def)
  have "snd (processVote (activeRequests c) v pc) = None"
  proof (rule ccontr)
    assume "snd (processVote (activeRequests c) v pc) \<noteq> None"
    then obtain cons where "snd (processVote (activeRequests c) v pc) = Some cons" by auto
    then have "resolved (fst (processVote (activeRequests c) v pc) ! i)"
      by (rule processVote_dispatch_resolves [OF f])
    then have "isConsensusReached (activeRequests (process_jury_vote h c v pc)) idx"
      using f v by (simp add: isConsensusReached_find)
    with after show False by simp
  qed
  then show ?thesis by (rule process_jury_vote_quiet)
qed

lemma wait_outcome_own:
  assumes run: "waitForJuryConsensus h c idx pc npl = Some c'"
      and unres: "\<not> isConsensusReached (activeRequests c) idx"
      and inv: "request_inv idx i user mt H c"
      and own: "list_all (\<lambda>v. requestId v = idx) npl"
  shows "\<exists>c0 cons. c' = juryUserResponse h c0 user cons \<and> cs_requestId cons = idx
           \<and> cs_messageType cons = mt \<and> g_gameActionHandlers c0 = H
           \<and> game_data c0 = game_data c \<and> user_out c0 = user_out c
           \<and> decision cons = (fst (tally (activeRequests c' ! i)) < snd (tally (activeRequests c' ! i)))"
proof -
  let ?I = "\<lambda>x. request_inv idx i user mt H x \<and> game_data x = game_data c \<and> user_out x = user_out c"
  have step: "\<And>x v. ?I x \<Longrightarrow> v \<in> set npl \<Longrightarrow> \<not> isConsensusReached (activeRequests x) idx \<Longrightarrow>
             \<not> isConsensusReached (activeRequests (process_jury_vote h x v pc)) idx \<Longrightarrow>
             ?I (process_jury_vote h x v pc)"
  proof -
    fix x v
    assume I: "?I x" and vin: "v \<in> set npl"
      and after: "\<not> isConsensusReached (activeRequests (process_jury_vote h x v pc)) idx"
    have v: "requestId v = idx" using own vin by (simp add: list_all_iff)
    have rI: "request_inv idx i user mt H x" using I by simp
    have q: "process_jury_vote h x v pc = x \<lparr> activeRequests := fst (processVote (activeRequests x) v pc) \<rparr>"
      by (rule quiet_step [OF rI v after])
    have "request_inv idx i user mt H (process_jury_vote h x v pc)"
      using I by (simp add: request_inv_step)
    moreover have "game_data (process_jury_vote h x v pc) = game_data c" using I by (simp add: q)
    moreover have "user_out (process_jury_vote h x v pc) = user_out c" using I by (simp add: q)
    ultimately show "?I (process_jury_vote h x v pc)" by simp
  qed
  have I0: "?I c" using inv by simp
  from wait_last_step [where I = ?I, OF run unres I0 step]
  obtain c0 v where c0: "request_inv idx i user mt H c0" "game_data c0 = game_data c"
      "user_out c0 = user_out c"
      "\<not> isConsensusReached (activeRequests c0) idx" "c' = process_jury_vote h c0 v pc"
      "isConsensusReached (activeRequests c') idx"
    by blast
  have f: "findRequest (activeRequests c0) idx = Some i" using c0(1) by (simp add: request_inv_def)
  from resolving_vote [OF f c0(4)] c0(5) c0(6)
  obtain cons where v: "requestId v = idx" and d: "snd (processVote (activeRequests c0) v pc) = Some cons"
    by blast
  have fv: "findRequest (activeRequests c0) (requestId v) = Some i" using f v by simp
  note props = processVote_same(2) [OF fv d]
  let ?c1 = "c0 \<lparr> activeRequests := fst (processVote (activeRequests c0) v pc) \<rparr>"
  have u: "cs_user cons = user" using props c0(1) by (simp add: request_inv_def)
  have 1: "c' = juryUserResponse h ?c1 user cons"
    using c0(5) d u by (simp add: process_jury_vote_dispatch)
  have 2: "cs_messageType cons = mt" using props c0(1) by (simp add: request_inv_def)
  have 3: "cs_requestId cons = idx" using props v by simp
  have 4: "g_gameActionHandlers ?c1 = H" using c0(1) by (simp add: request_inv_def)
  have 6: "game_data ?c1 = game_data c" using c0(2) by simp
  have 7: "user_out ?c1 = user_out c" using c0(3) by simp
  have ar: "activeRequests c' = fst (processVote (activeRequests c0) v pc)"
    using c0(5) by simp
  have 5: "decision cons = (fst (tally (activeRequests c' ! i)) < snd (tally (activeRequests c' ! i)))"
    using props by (simp add: ar)
  from 1 2 3 4 5 6 7 show ?thesis by blast
qed

lemma findRequest_append_new:
  "findRequest rs rid = None \<Longrightarrow> rs_requestId r = rid \<Longrightarrow> findRequest (rs @ [r]) rid = Some (length rs)"
  by (induction rs) (auto split: if_splits)

lemma find_append_new:
  "find P xs = None \<Longrightarrow> P y \<Longrightarrow> find P (xs @ [y]) = Some y"
  by (induction xs) (auto split: if_splits)

lemma player_action_branch_static [simp]:
  "activeRequests (l_store (player_action_branch h c user data)) = activeRequests c"
  "g_gameActionHandlers (l_store (player_action_branch h c user data)) = g_gameActionHandlers c"
  "user_out (l_store (player_action_branch h c user data)) = user_out c"
  "npl_out (l_store (player_action_branch h c user data)) = npl_out c"
  "mint_calls (l_store (player_action_branch h c user data)) = mint_calls c"
  "action (l_state (player_action_branch h c user data)) = ''player_action''"
  by (simp_all add: player_action_branch_def blank_state_def Let_def split: option.splits prod.splits)

lemma jury_submission_sel:
  "game_data (jury_submission h user l idx pc) = game_data (l_store l)"
  "user_out (jury_submission h user l idx pc) = user_out (l_store l)"
  "mint_calls (jury_submission h user l idx pc) = mint_calls (l_store l)"
  "g_gameActionHandlers (jury_submission h user l idx pc)
     = g_gameActionHandlers (l_store l) @ [(l_state l) \<lparr> action_idx := idx \<rparr>]"
  "activeRequests (jury_submission h user l idx pc)
     = activeRequests (l_store l)
         @ [new_request user idx ''validate_game_action'' (transitionContext l)
              ''game_engine_context'']"
  by (simp_all add: jury_submission_def processRequest_def Let_def)

lemma jury_submission_inv:
  assumes "findRequest (activeRequests (l_store l)) idx = None"
  shows "request_inv idx (length (activeRequests (l_store l))) user ''validate_game_action''
           (g_gameActionHandlers (l_store l) @ [(l_state l) \<lparr> action_idx := idx \<rparr>])
           (jury_submission h user l idx pc)"
    and "\<not> isConsensusReached (activeRequests (jury_submission h user l idx pc)) idx"
proof -
  note ar = jury_submission_sel(5) [of h user l idx pc]
  have f: "findRequest (activeRequests (jury_submission h user l idx pc)) idx
             = Some (length (activeRequests (l_store l)))"
    unfolding ar using assms by (simp add: findRequest_append_new new_request_def)
  show "request_inv idx (length (activeRequests (l_store l))) user ''validate_game_action''
           (g_gameActionHandlers (l_store l) @ [(l_state l) \<lparr> action_idx := idx \<rparr>])
           (jury_submission h user l idx pc)"
    unfolding request_inv_def using f
    by (simp add: jury_submission_sel(4)) (simp add: ar new_request_def)
  show "\<not> isConsensusReached (activeRequests (jury_submission h user l idx pc)) idx"
    using f by (simp add: isConsensusReached_find) (simp add: ar new_request_def)
qed

lemma juryUserResponse_found:
  assumes "cs_messageType cons = ''validate_game_action''"
      and "find (\<lambda>g. action_idx g = cs_requestId cons) (g_gameActionHandlers c0) = Some gs"
      and "action gs = ''player_action''"
  shows "juryUserResponse h c0 user cons =
     (if decision cons \<and> newGameState gs \<noteq> [] then
        hp_write_user_msg
          (if str_contains (newGameState gs) ''Game_Status: won''
           then extractPlayerInventory h c0 (gameId gs) (newGameState gs) (playerAction gs)
           else c0)
          user
          (ConsensusReply cons (Some \<lparr> e_game_id = gameId gs,
             e_player_action = playerAction gs, game_state = newGameState gs,
             action_result = ''success'' \<rparr>))
      else
        hp_write_user_msg
          (if gameId gs \<noteq> [] \<and> oldGameState gs \<noteq> []
           then saveGameState c0 (gameId gs) (oldGameState gs) else c0)
          user
          (ConsensusReply cons (Some \<lparr> e_game_id = gameId gs,
             e_player_action = playerAction gs, game_state = oldGameState gs,
             action_result = ''failed'' \<rparr>)))"
  using assms by (simp add: juryUserResponse_def)

lemma juryUserResponse_success:
  assumes "cs_messageType cons = ''validate_game_action''"
      and "find (\<lambda>g. action_idx g = cs_requestId cons) (g_gameActionHandlers c0) = Some gs"
      and "action gs = ''player_action''"
      and "decision cons" and "newGameState gs \<noteq> []"
  shows "juryUserResponse h c0 user cons =
        hp_write_user_msg
          (if str_contains (newGameState gs) ''Game_Status: won''
           then extractPlayerInventory h c0 (gameId gs) (newGameState gs) (playerAction gs)
           else c0)
          user
          (ConsensusReply cons (Some \<lparr> e_game_id = gameId gs,
             e_player_action = playerAction gs, game_state = newGameState gs,
             action_result = ''success'' \<rparr>))"
proof -
  have "decision cons \<and> newGameState gs \<noteq> []" using assms(4,5) by simp
  then show ?thesis
    unfolding juryUserResponse_found [OF assms(1,2,3)] by (rule if_P)
qed

lemma juryUserResponse_failed:
  assumes "cs_messageType cons = ''validate_game_action''"
      and "find (\<lambda>g. action_idx g = cs_requestId cons) (g_gameActionHandlers c0) = Some gs"
      and "action gs = ''player_action''"
      and "\<not> (decision cons \<and> newGameState gs \<noteq> [])"
  shows "juryUserResponse h c0 user cons =
        hp_write_user_msg
          (if gameId gs \<noteq> [] \<and> oldGameState gs \<noteq> []
           then saveGameState c0 (gameId gs) (oldGameState gs) else c0)
          user
          (ConsensusReply cons (Some \<lparr> e_game_id = gameId gs,
             e_player_action = playerAction gs, game_state = oldGameState gs,
             action_result = ''failed'' \<rparr>))"
  unfolding juryUserResponse_found [OF assms(1,2,3)] by (rule if_not_P [OF assms(4)])

text \<open>What a \<^verbatim>\<open>player_action\<close> run that returns has done last.\<close>

lemma player_action_outcome:
  assumes gates: "systems_initialized h" "isDaemonRunning h" "isModelReady h"
      and fresh: "findRequest (activeRequests c) idx = None"
                 "find (\<lambda>g. action_idx g = idx) (g_gameActionHandlers c) = None"
      and run: "process_game_message h c user ''player_action'' data idx pc npl = Some c'"
  shows "\<exists>c0 cons. c' = juryUserResponse h c0 user cons \<and> cs_requestId cons = idx
          \<and> cs_messageType cons = ''validate_game_action''
          \<and> find (\<lambda>g. action_idx g = idx) (g_gameActionHandlers c0)
               = Some ((l_state (player_action_branch h c user data)) \<lparr> action_idx := idx \<rparr>)
          \<and> (list_all (\<lambda>v. requestId v = idx) npl \<longrightarrow>
                game_data c0 = game_data (l_store (player_action_branch h c user data))
                \<and> user_out c0 = user_out c)"
proof -
  let ?l = "player_action_branch h c user data"
  let ?c2 = "jury_submission h user ?l idx pc"
  let ?H = "g_gameActionHandlers (l_store ?l) @ [(l_state ?l) \<lparr> action_idx := idx \<rparr>]"
  have w: "waitForJuryConsensus h ?c2 idx pc npl = Some c'"
    using run gates by (simp add: process_game_message_def)
  have fr: "findRequest (activeRequests (l_store ?l)) idx = None" using fresh(1) by simp
  note inv = jury_submission_inv [OF fr, where user = user and h = h and pc = pc]
  have fH: "find (\<lambda>g. action_idx g = idx) ?H = Some ((l_state ?l) \<lparr> action_idx := idx \<rparr>)"
    using fresh(2) by (simp add: find_append_new)
  show ?thesis
  proof (cases "list_all (\<lambda>v. requestId v = idx) npl")
    case True
    from wait_outcome_own [OF w inv(2) inv(1) True]
    obtain c0 cons where o: "c' = juryUserResponse h c0 user cons" "cs_requestId cons = idx"
      "cs_messageType cons = ''validate_game_action''" "g_gameActionHandlers c0 = ?H"
      "game_data c0 = game_data ?c2" "user_out c0 = user_out ?c2"
      by blast
    have a: "find (\<lambda>g. action_idx g = idx) (g_gameActionHandlers c0)
               = Some ((l_state ?l) \<lparr> action_idx := idx \<rparr>)"
      using o(4) fH by simp
    have b: "game_data c0 = game_data (l_store ?l)" using o(5) by (simp add: jury_submission_sel)
    have d: "user_out c0 = user_out c" using o(6) by (simp add: jury_submission_sel)
    from o(1) o(2) o(3) a b d show ?thesis by blast
  next
    case False
    from wait_outcome [OF w inv(2) inv(1)]
    obtain c0 cons where o: "c' = juryUserResponse h c0 user cons" "cs_requestId cons = idx"
      "cs_messageType cons = ''validate_game_action''" "g_gameActionHandlers c0 = ?H"
      by blast
    have a: "find (\<lambda>g. action_idx g = idx) (g_gameActionHandlers c0)
               = Some ((l_state ?l) \<lparr> action_idx := idx \<rparr>)"
      using o(4) fH by simp
    from o(1) o(2) o(3) a False show ?thesis by blast
  qed
qed

lemma gate_replies:
  assumes "\<not> (systems_initialized h \<and> isDaemonRunning h \<and> isModelReady h)"
  shows "\<exists>m. process_game_message h c user ''player_action'' data idx pc npl
           = Some (hp_write_user_msg c user (ErrorReply m))"
  using assms by (auto simp add: process_game_message_def)

lemma branch_no_colon:
  assumes "parse_action_data data = None"
  shows "player_action_branch h c user data =
     \<lparr> l_state = (blank_state user ''player_action'') \<lparr> playerAction := data \<rparr>,
       playerActionText = [], l_oldGameState = [], l_newGameState = [], l_store = c \<rparr>"
  using assms by (simp add: player_action_branch_def)

lemma branch_missing:
  assumes "parse_action_data data = Some (gid, a, ct)"
      and "loadGameState c gid = [] \<or> loadGameWorld c gid = []"
  shows "player_action_branch h c user data =
     \<lparr> l_state = (blank_state user ''player_action'')
          \<lparr> gameId := gid, playerAction := a, continue_conversation := ct,
            oldGameState := loadGameState c gid, newGameState := loadGameState c gid,
            gameWorld := loadGameWorld c gid \<rparr>,
       playerActionText = a, l_oldGameState = loadGameState c gid, l_newGameState = [],
       l_store = c \<rparr>"
  using assms by (simp add: player_action_branch_def Let_def)

lemma branch_saved:
  assumes "parse_action_data data = Some (gid, a, ct)"
      and "loadGameState c gid \<noteq> []" and "loadGameWorld c gid \<noteq> []"
      and "r = processPlayerAction h gid a (loadGameState c gid) (loadGameWorld c gid) ct"
      and "r \<noteq> []" and "\<not> is_error_response r"
  shows "player_action_branch h c user data =
     \<lparr> l_state = (blank_state user ''player_action'')
          \<lparr> gameId := gid, playerAction := a, oldGameState := loadGameState c gid,
            gameWorld := loadGameWorld c gid, newGameState := r \<rparr>,
       playerActionText = a, l_oldGameState = loadGameState c gid, l_newGameState = r,
       l_store = saveGameState c gid r \<rparr>"
  using assms by (simp add: player_action_branch_def Let_def)

lemma branch_rejected:
  assumes "parse_action_data data = Some (gid, a, ct)"
      and "loadGameState c gid \<noteq> []" and "loadGameWorld c gid \<noteq> []"
      and "r = processPlayerAction h gid a (loadGameState c gid) (loadGameWorld c gid) ct"
      and "r = [] \<or> is_error_response r"
  shows "player_action_branch h c user data =
     \<lparr> l_state = (blank_state user ''player_action'')
          \<lparr> gameId := gid, playerAction := a, oldGameState := loadGameState c gid,
            gameWorld := loadGameWorld c gid, newGameState := loadGameState c gid \<rparr>,
       playerActionText = a, l_oldGameState = loadGameState c gid, l_newGameState = [],
       l_store = c \<rparr>"
  using assms by (auto simp add: player_action_branch_def Let_def)

lemma branch_cases:
  obtains (no_colon) "parse_action_data data = None"
  | (missing) gid a ct where "parse_action_data data = Some (gid, a, ct)"
      "loadGameState c gid = [] \<or> loadGameWorld c gid = []"
  | (saved) gid a ct where "parse_action_data data = Some (gid, a, ct)"
      "loadGameState c gid \<noteq> []" "loadGameWorld c gid \<noteq> []"
      "processPlayerAction h gid a (loadGameState c gid) (loadGameWorld c gid) ct \<noteq> []"
      "\<not> is_error_response (processPlayerAction h gid a (loadGameState c gid) (loadGameWorld c gid) ct)"
  | (rejected) gid a ct where "parse_action_data data = Some (gid, a, ct)"
      "loadGameState c gid \<noteq> []" "loadGameWorld c gid \<noteq> []"
      "processPlayerAction h gid a (loadGameState c gid) (loadGameWorld c gid) ct = []
       \<or> is_error_response (processPlayerAction h gid a (loadGameState c gid) (loadGameWorld c gid) ct)"
proof (cases "parse_action_data data")
  case None
  then show ?thesis by (rule no_colon)
next
  case (Some p)
  obtain gid a ct where p: "p = (gid, a, ct)" by (cases p)
  show ?thesis using Some p missing saved rejected by blast
qed

lemma saved_branch:
  assumes l: "l = player_action_branch h c user data" and s: "l_newGameState l \<noteq> []"
  shows "l_store l = saveGameState c (gameId (l_state l)) (l_newGameState l)"
    and "oldGameState (l_state l) = loadGameState c (gameId (l_state l))"
    and "oldGameState (l_state l) \<noteq> []"
    and "newGameState (l_state l) = l_newGameState l"
    and "\<not> is_error_response (l_newGameState l)"
    and "\<exists>cont. l_newGameState l =
           processPlayerAction h (gameId (l_state l)) (playerAction (l_state l))
             (loadGameState c (gameId (l_state l))) (loadGameWorld c (gameId (l_state l))) cont"
proof -
  have "l_store l = saveGameState c (gameId (l_state l)) (l_newGameState l)
    \<and> oldGameState (l_state l) = loadGameState c (gameId (l_state l))
    \<and> oldGameState (l_state l) \<noteq> []
    \<and> newGameState (l_state l) = l_newGameState l
    \<and> \<not> is_error_response (l_newGameState l)
    \<and> (\<exists>cont. l_newGameState l =
           processPlayerAction h (gameId (l_state l)) (playerAction (l_state l))
             (loadGameState c (gameId (l_state l))) (loadGameWorld c (gameId (l_state l))) cont)"
  proof (cases rule: branch_cases [where data = data and c = c and h = h])
    case no_colon
    then show ?thesis using s by (simp add: l branch_no_colon)
  next
    case (missing gid a ct)
    then show ?thesis using s by (simp add: l branch_missing)
  next
    case (saved gid a ct)
    have e: "l = \<lparr> l_state = (blank_state user ''player_action'')
          \<lparr> gameId := gid, playerAction := a, oldGameState := loadGameState c gid,
            gameWorld := loadGameWorld c gid,
            newGameState := processPlayerAction h gid a (loadGameState c gid) (loadGameWorld c gid) ct \<rparr>,
       playerActionText = a, l_oldGameState = loadGameState c gid,
       l_newGameState = processPlayerAction h gid a (loadGameState c gid) (loadGameWorld c gid) ct,
       l_store = saveGameState c gid
          (processPlayerAction h gid a (loadGameState c gid) (loadGameWorld c gid) ct) \<rparr>"
      unfolding l using saved by (intro branch_saved) simp_all
    show ?thesis
      using saved by (subst e)+ (auto simp add: blank_state_def)
  next
    case (rejected gid a ct)
    have "l_newGameState l = []"
      unfolding l by (subst branch_rejected [OF rejected(1,2,3) refl rejected(4)]) simp
    then show ?thesis using s by simp
  qed
  then show "l_store l = saveGameState c (gameId (l_state l)) (l_newGameState l)"
    and "oldGameState (l_state l) = loadGameState c (gameId (l_state l))"
    and "oldGameState (l_state l) \<noteq> []"
    and "newGameState (l_state l) = l_newGameState l"
    and "\<not> is_error_response (l_newGameState l)"
    and "\<exists>cont. l_newGameState l =
           processPlayerAction h (gameId (l_state l)) (playerAction (l_state l))
             (loadGameState c (gameId (l_state l))) (loadGameWorld c (gameId (l_state l))) cont"
    by blast+
qed


text \<open>The reply and the store after a \<^verbatim>\<open>player_action\<close> run that returns.\<close>

lemma player_action_result:
  assumes l: "l = player_action_branch h c user data"
      and gates: "systems_initialized h" "isDaemonRunning h" "isModelReady h"
      and fresh: "findRequest (activeRequests c) idx = None"
                 "find (\<lambda>g. action_idx g = idx) (g_gameActionHandlers c) = None"
      and run: "process_game_message h c user ''player_action'' data idx pc npl = Some c'"
  shows "\<exists>c0 cons e. last (user_out c') = (user, ConsensusReply cons (Some e))
          \<and> cs_requestId cons = idx
          \<and> (list_all (\<lambda>v. requestId v = idx) npl \<longrightarrow>
                game_data c0 = game_data (l_store l) \<and> user_out c0 = user_out c)
          \<and> (decision cons \<and> newGameState (l_state l) \<noteq> [] \<longrightarrow>
                e = \<lparr> e_game_id = gameId (l_state l), e_player_action = playerAction (l_state l),
                     game_state = newGameState (l_state l), action_result = ''success'' \<rparr>
                \<and> game_data c' = game_data
                     (if str_contains (newGameState (l_state l)) ''Game_Status: won''
                      then extractPlayerInventory h c0 (gameId (l_state l))
                             (newGameState (l_state l)) (playerAction (l_state l))
                      else c0))
          \<and> (\<not> (decision cons \<and> newGameState (l_state l) \<noteq> []) \<longrightarrow>
                e = \<lparr> e_game_id = gameId (l_state l), e_player_action = playerAction (l_state l),
                     game_state = oldGameState (l_state l), action_result = ''failed'' \<rparr>
                \<and> game_data c' = game_data
                     (if gameId (l_state l) \<noteq> [] \<and> oldGameState (l_state l) \<noteq> []
                      then saveGameState c0 (gameId (l_state l)) (oldGameState (l_state l))
                      else c0))"
proof -
  from player_action_outcome [OF gates fresh run]
  obtain c0 cons0 where o: "c' = juryUserResponse h c0 user cons0" "cs_requestId cons0 = idx"
      "cs_messageType cons0 = ''validate_game_action''"
      "find (\<lambda>g. action_idx g = idx) (g_gameActionHandlers c0)
         = Some ((l_state l) \<lparr> action_idx := idx \<rparr>)"
      "list_all (\<lambda>v. requestId v = idx) npl \<longrightarrow>
         game_data c0 = game_data (l_store l) \<and> user_out c0 = user_out c"
    unfolding l by blast
  let ?gs = "(l_state l) \<lparr> action_idx := idx \<rparr>"
  let ?ok = "\<lparr> e_game_id = gameId (l_state l), e_player_action = playerAction (l_state l),
                game_state = newGameState (l_state l), action_result = ''success'' \<rparr>"
  let ?ko = "\<lparr> e_game_id = gameId (l_state l), e_player_action = playerAction (l_state l),
                game_state = oldGameState (l_state l), action_result = ''failed'' \<rparr>"
  have act: "action ?gs = ''player_action''" by (simp add: l)
  have fnd: "find (\<lambda>g. action_idx g = cs_requestId cons0) (g_gameActionHandlers c0) = Some ?gs"
    using o(2) o(4) by simp
  show ?thesis
  proof (cases "decision cons0 \<and> newGameState (l_state l) \<noteq> []")
    case yes: True
    have c': "c' = hp_write_user_msg
          (if str_contains (newGameState (l_state l)) ''Game_Status: won''
           then extractPlayerInventory h c0 (gameId (l_state l)) (newGameState (l_state l))
                  (playerAction (l_state l))
           else c0)
          user (ConsensusReply cons0 (Some ?ok))"
    proof -
      have "decision cons0" "newGameState ?gs \<noteq> []" using yes by simp_all
      from juryUserResponse_success [OF o(3) fnd act this, where h = h and user = user]
      show ?thesis by (simp add: o(1) split del: if_split cong: if_cong)
    qed
    have r: "last (user_out c') = (user, ConsensusReply cons0 (Some ?ok))"
      by (subst c') (simp split del: if_split cong: if_cong)
    have gd: "game_data c' = game_data
          (if str_contains (newGameState (l_state l)) ''Game_Status: won''
           then extractPlayerInventory h c0 (gameId (l_state l)) (newGameState (l_state l))
                  (playerAction (l_state l))
           else c0)"
      by (subst c') (simp split del: if_split cong: if_cong)
    show ?thesis
      using yes r gd o(2) o(5)
      by (intro exI [of _ c0] exI [of _ cons0] exI [of _ ?ok])
         (simp split del: if_split cong: if_cong)
  next
    case no: False
    have c': "c' = hp_write_user_msg
          (if gameId (l_state l) \<noteq> [] \<and> oldGameState (l_state l) \<noteq> []
           then saveGameState c0 (gameId (l_state l)) (oldGameState (l_state l)) else c0)
          user (ConsensusReply cons0 (Some ?ko))"
    proof -
      have "\<not> (decision cons0 \<and> newGameState ?gs \<noteq> [])" using no by simp
      from juryUserResponse_failed [OF o(3) fnd act this, where h = h and user = user]
      show ?thesis by (simp add: o(1) split del: if_split cong: if_cong)
    qed
    have r: "last (user_out c') = (user, ConsensusReply cons0 (Some ?ko))"
      by (subst c') (simp split del: if_split cong: if_cong)
    have gd: "game_data c' = game_data
          (if gameId (l_state l) \<noteq> [] \<and> oldGameState (l_state l) \<noteq> []
           then saveGameState c0 (gameId (l_state l)) (oldGameState (l_state l)) else c0)"
      by (subst c') (simp split del: if_split cong: if_cong)
    show ?thesis
      using no r gd o(2) o(5)
      by (intro exI [of _ c0] exI [of _ cons0] exI [of _ ?ko])
         (simp split del: if_split cong: if_cong)
  qed
qed

text \<open>A run that stops at the gates answers with an error, never with a consensus.\<close>

lemma consensus_reply_gates:
  assumes run: "process_game_message h c user ''player_action'' data idx pc npl = Some c'"
      and reply: "last (user_out c') = (u, ConsensusReply cons e)"
  shows "systems_initialized h" "isDaemonRunning h" "isModelReady h"
proof -
  have "systems_initialized h \<and> isDaemonRunning h \<and> isModelReady h"
  proof (rule ccontr)
    assume n: "\<not> (systems_initialized h \<and> isDaemonRunning h \<and> isModelReady h)"
    from gate_replies [OF n, of c user data idx pc npl] run
    obtain m where "c' = hp_write_user_msg c user (ErrorReply m)" by auto
    then have "last (user_out c') = (user, ErrorReply m)" by simp
    with reply show False by simp
  qed
  then show "systems_initialized h" "isDaemonRunning h" "isModelReady h" by simp_all
qed

lemma loadGameState_cong: "game_data a = game_data b \<Longrightarrow> loadGameState a g = loadGameState b g"
  by (simp add: loadGameState_def)


section \<open>C1: an invalid action leaves the state file as it was\<close>

text \<open>
  Claim C1 as amended. Take a \<^verbatim>\<open>player_action\<close> request with a fresh request id and a
  game id that is not empty, whose new state was saved tentatively, and let the run
  return with a consensus reply whose decision is invalid. Then the state file of the
  game holds, after the request, what it held when the request was taken up, and the
  reply goes to the requesting user with \<^verbatim>\<open>action_result = failed\<close> and that old state.
  Votes for other requests may arrive while the request waits.
\<close>

theorem invalid_action_reverted:
  assumes "l = player_action_branch h c user data"
      and "findRequest (activeRequests c) idx = None"
      and "find (\<lambda>g. action_idx g = idx) (g_gameActionHandlers c) = None"
      and "l_newGameState l \<noteq> []"
      and "gameId (l_state l) \<noteq> []"
      and "process_game_message h c user ''player_action'' data idx pc npl = Some c'"
      and "last (user_out c') = (u, ConsensusReply cons e)"
      and "\<not> decision cons"
  shows "loadGameState c' (gameId (l_state l)) = loadGameState c (gameId (l_state l))
       \<and> u = user \<and> cs_requestId cons = idx
       \<and> e = Some \<lparr> e_game_id = gameId (l_state l), e_player_action = playerAction (l_state l),
                    game_state = loadGameState c (gameId (l_state l)),
                    action_result = ''failed'' \<rparr>"
proof -
  note gates = consensus_reply_gates [OF assms(6) assms(7)]
  note sv = saved_branch [OF assms(1) assms(4)]
  from player_action_result [OF assms(1) gates assms(2) assms(3) assms(6)]
  obtain c0 cons0 e0 where r: "last (user_out c') = (user, ConsensusReply cons0 (Some e0))"
      "cs_requestId cons0 = idx"
      "\<not> (decision cons0 \<and> newGameState (l_state l) \<noteq> []) \<longrightarrow>
                e0 = \<lparr> e_game_id = gameId (l_state l), e_player_action = playerAction (l_state l),
                     game_state = oldGameState (l_state l), action_result = ''failed'' \<rparr>
                \<and> game_data c' = game_data
                     (if gameId (l_state l) \<noteq> [] \<and> oldGameState (l_state l) \<noteq> []
                      then saveGameState c0 (gameId (l_state l)) (oldGameState (l_state l))
                      else c0)"
    by blast
  from r(1) assms(7) have eq: "u = user" "cons = cons0" "e = Some e0" by simp_all
  have nd: "\<not> (decision cons0 \<and> newGameState (l_state l) \<noteq> [])" using assms(8) eq(2) by simp
  from r(3) nd have e0: "e0 = \<lparr> e_game_id = gameId (l_state l),
        e_player_action = playerAction (l_state l),
        game_state = oldGameState (l_state l), action_result = ''failed'' \<rparr>"
    and gd: "game_data c' = game_data
                     (if gameId (l_state l) \<noteq> [] \<and> oldGameState (l_state l) \<noteq> []
                      then saveGameState c0 (gameId (l_state l)) (oldGameState (l_state l))
                      else c0)"
    by blast+
  have "game_data c' = game_data (saveGameState c0 (gameId (l_state l)) (oldGameState (l_state l)))"
    using gd assms(5) sv(3) by simp
  then have "loadGameState c' (gameId (l_state l))
               = loadGameState (saveGameState c0 (gameId (l_state l)) (oldGameState (l_state l)))
                   (gameId (l_state l))"
    by (rule loadGameState_cong)
  then have "loadGameState c' (gameId (l_state l)) = loadGameState c (gameId (l_state l))"
    by (simp add: sv(2))
  then show ?thesis using eq e0 r(2) sv(2) by simp
qed

theorem invalid_action_reverted_witness:
  "tie_run = Some (the tie_run)
   \<and> last (user_out (the tie_run))
       = (0, ConsensusReply tie_consensus
               (Some \<lparr> e_game_id = ''g1'', e_player_action = ''move north'',
                       game_state = ''Player_Location: entrance'', action_result = ''failed'' \<rparr>))
   \<and> l_newGameState (player_action_branch tunnel_host demo_store 0 ''g1:move north:false'')
       = ''Player_Location: tunnel''
   \<and> loadGameState demo_store ''g1'' = ''Player_Location: entrance''
   \<and> loadGameState (the tie_run) ''g1'' = ''Player_Location: entrance''"
proof -
  let ?l = "player_action_branch tunnel_host demo_store 0 ''g1:move north:false''"
  have h2: "findRequest (activeRequests demo_store) 0 = None" by code_simp
  have h3: "find (\<lambda>g. action_idx g = 0) (g_gameActionHandlers demo_store) = None" by code_simp
  have new: "l_newGameState ?l = ''Player_Location: tunnel''" by code_simp
  have h4: "l_newGameState ?l \<noteq> []" by code_simp
  have gid: "gameId (l_state ?l) = ''g1''" by code_simp
  have h5: "gameId (l_state ?l) \<noteq> []" by code_simp
  have run: "tie_run = Some (the tie_run)" by code_simp
  have h6: "process_game_message tunnel_host demo_store 0 ''player_action''
               ''g1:move north:false'' 0 2
               [vote_of 0 True ''jury_100001'', vote_of 0 False ''jury_100002''] = Some (the tie_run)"
    using run by (simp add: tie_run_def)
  have h7: "last (user_out (the tie_run))
       = (0, ConsensusReply tie_consensus
               (Some \<lparr> e_game_id = ''g1'', e_player_action = ''move north'',
                       game_state = ''Player_Location: entrance'', action_result = ''failed'' \<rparr>))"
    by code_simp
  have h8: "\<not> decision tie_consensus" by code_simp
  have old: "loadGameState demo_store ''g1'' = ''Player_Location: entrance''" by code_simp
  from invalid_action_reverted [OF refl h2 h3 h4 h5 h6 h7 h8]
  show ?thesis using run h7 new old by (simp add: gid)
qed

text \<open>
  Claim C1 compares the state file at the end of the round with the state file at the
  start of the round, for every request that resolves invalid. A round can hold several
  requests: when a first request on the game resolves valid and a second one resolves
  invalid, the second is reverted to the state the first one committed, which is not
  the state the round started with. And the revert is guarded by a non-empty game id:
  with the data \<^verbatim>\<open>:move north:false\<close> and files stored under the empty id, the new
  state is saved tentatively and, on an invalid consensus, stays in the file.
\<close>

theorem invalid_action_counterexample:
  "loadGameState demo_store ''g1'' = ''Player_Location: entrance''
   \<and> first_run = Some (the first_run)
   \<and> l_newGameState (player_action_branch tunnel_host (the first_run) 0 ''g1:fly:false'')
        = ''Player_Location: sky''
   \<and> second_run = Some (the second_run)
   \<and> last (user_out (the second_run))
        = (0, ConsensusReply (verdict 1 False)
                (Some \<lparr> e_game_id = ''g1'', e_player_action = ''fly'',
                        game_state = ''Player_Location: tunnel'', action_result = ''failed'' \<rparr>))
   \<and> loadGameState (the second_run) ''g1'' = ''Player_Location: tunnel''
   \<and> loadGameState blank_id_store [] = ''Player_Location: entrance''
   \<and> l_newGameState (player_action_branch tunnel_host blank_id_store 0 '':move north:false'')
        = ''Player_Location: tunnel''
   \<and> blank_id_run = Some (the blank_id_run)
   \<and> last (user_out (the blank_id_run))
        = (0, ConsensusReply (verdict 0 False)
                (Some \<lparr> e_game_id = [], e_player_action = ''move north'',
                        game_state = ''Player_Location: entrance'', action_result = ''failed'' \<rparr>))
   \<and> loadGameState (the blank_id_run) [] = ''Player_Location: tunnel''"
  by code_simp

section \<open>C3: what a valid action commits\<close>




section \<open>C5: the NFT record of a won game\<close>

lemma nft_unchanged_save:
  "map_of (game_data (saveGameState x gid s)) (nft_path g) = map_of (game_data x) (nft_path g)"
  by (simp add: update_conv')







section \<open>C10: a request for a game that is not stored\<close>






end
